theory Spec2Isabelle
  imports Complex_Main
begin

section \<open>The bulk downloader of \<^verbatim>\<open>src/bulk_downloader.py\<close>\<close>

text \<open>
  The script downloads a list of URLs one after the other into the working directory,
  resuming partial files. Its effects are made explicit here: the working directory is
  a map from file names to files and directories, the remote side is an oracle that
  answers each request, and everything the script sends, opens or asks on the console is
  appended to a trace. A Python exception is a value of \<open>exn\<close>; a function that can
  raise returns \<open>exn + 'a\<close> next to the world it leaves behind, since requests that
  were sent and bytes that were written stay so when the exception is caught.

  Strings are sequences of bytes (text in UTF-8). Left out: what is printed
  (\<^verbatim>\<open>print\<close>, the progress line), the wall-clock \<^verbatim>\<open>total_time\<close>, the timeouts of
  the requests, and the cookie jar, which is attached unchanged to every request of a
  run.
\<close>

subsection \<open>Data\<close>

type_synonym bytes = string

datatype http_method = HEAD | GET

record request =
  req_method :: http_method
  req_url :: string
  req_headers :: "(string \<times> string) list"
  req_auth :: "(string \<times> string) option"

text \<open>
  The \<^verbatim>\<open>Content-Length\<close> header of a response, as \<^verbatim>\<open>int(headers.get('Content-Length', 0))\<close>
  sees it: absent, a text that \<^verbatim>\<open>int\<close> rejects, or a text that \<^verbatim>\<open>int\<close> reads as a
  (possibly negative) number.
\<close>

datatype header_value = Missing | Malformed | Length int

text \<open>
  A response: its status, its \<^verbatim>\<open>Content-Length\<close>, the chunks that
  \<^verbatim>\<open>iter_content\<close> yields, and whether the stream breaks after them (the
  library then raises a \<^verbatim>\<open>RequestException\<close> instead of ending the iteration).
  Nothing ties the chunks to the announced length: servers do truncate bodies.
\<close>

record response =
  status_code :: int
  content_length :: header_value
  chunks :: "bytes list"
  broken :: bool

text \<open>
  What a request comes to: a response, or none, when the library raises a
  \<^verbatim>\<open>RequestException\<close> instead (no connection, a timeout, a URL it cannot use).
\<close>

datatype outcome = NoResponse | Response response

datatype open_mode = Truncate | Append

datatype event =
    Sent request
  | Opened string open_mode
  | Input string
  | Getpass string
  | CookieSaved

datatype value_error =
    NotAnInteger
  | InvalidURL
  | EmbeddedNull
  | Md5Mismatch string string string
  | DownloadedSize int int
  | FinalSize int int

text \<open>The error numbers of the \<^verbatim>\<open>OSError\<close>s that depend on the file name alone.\<close>

datatype errno = ENOENT | ENAMETOOLONG | EISDIR

text \<open>
  \<open>ConnectionError\<close> and \<open>HTTPError\<close> stand for the subclasses of
  \<^verbatim>\<open>requests.RequestException\<close>; \<open>OSError\<close> for \<^verbatim>\<open>FileNotFoundError\<close>,
  \<^verbatim>\<open>IsADirectoryError\<close> and the plain \<^verbatim>\<open>OSError\<close> of a name that is too long.
\<close>

datatype exn =
    ConnectionError
  | HTTPError int
  | ValueError value_error
  | OSError errno
  | ZeroDivisionError
  | SystemExit int

text \<open>An entry of the working directory: a regular file with its bytes, or a directory.\<close>

datatype node = File bytes | Dir

record world =
  fs :: "string \<rightharpoonup> node"
  trace :: "event list"

text \<open>
  What the run cannot decide:
  \<^item> the answers of the network, which may depend on everything that happened before;
  \<^item> the digest function of \<^verbatim>\<open>hashlib\<close>, and what the user types;
  \<^item> two checks that \<^verbatim>\<open>urlsplit\<close> hands to other libraries: whether the text
    between square brackets is an address that \<^verbatim>\<open>_check_bracketed_host\<close> accepts,
    and whether an authority with bytes beyond ASCII passes \<^verbatim>\<open>_checknetloc\<close>;
  \<^item> the longest file name the file system takes, and the size it reports for a
    directory;
  \<^item> how many of the bytes written through a file handle are on disk once the handle
    is closed (all of them on a disk that loses nothing).
\<close>

record env =
  net :: "event list \<Rightarrow> request \<Rightarrow> outcome"
  md5 :: "bytes \<Rightarrow> string"
  typed_username :: string
  typed_password :: string
  bracketed_host_ok :: "string \<Rightarrow> bool"
  nfkc_ok :: "string \<Rightarrow> bool"
  name_max :: nat
  dir_size :: "string \<Rightarrow> int"
  landed :: "event list \<Rightarrow> string \<Rightarrow> nat \<Rightarrow> nat"

record downloader =
  file_urls :: "string list"
  total_bytes :: int
  success :: "string list"
  failed :: "string list"

subsection \<open>Library calls\<close>

text \<open>
  \<^verbatim>\<open>urllib.parse.urlparse(url).path\<close>, after \<^verbatim>\<open>urlsplit\<close>, \<^verbatim>\<open>urlparse\<close> and
  \<^verbatim>\<open>_splitparams\<close> of CPython 3.11, step by step.
\<close>

definition ascii_letters :: string where
  "ascii_letters = ''abcdefghijklmnopqrstuvwxyzABCDEFGHIJKLMNOPQRSTUVWXYZ''"

definition scheme_chars :: string where
  "scheme_chars = ascii_letters @ ''0123456789'' @ ''+-.''"

definition lower :: "string \<Rightarrow> string" where
  "lower s = map (\<lambda>c. case map_of (zip ''ABCDEFGHIJKLMNOPQRSTUVWXYZ''
                                        ''abcdefghijklmnopqrstuvwxyz'') c of
                        Some l \<Rightarrow> l | None \<Rightarrow> c) s"

definition uses_params :: "string list" where
  "uses_params = ['''', ''ftp'', ''hdl'', ''prospero'', ''http'', ''imap'',
                  ''https'', ''shttp'', ''rtsp'', ''rtsps'', ''rtspu'', ''sip'',
                  ''sips'', ''mms'', ''sftp'', ''tel'']"

text \<open>
  \<^verbatim>\<open>url.lstrip(_WHATWG_C0_CONTROL_OR_SPACE)\<close>: leading bytes up to the space (0x20)
  go.
\<close>

definition lstrip_c0 :: "string \<Rightarrow> string" where
  "lstrip_c0 u = dropWhile (\<lambda>c. (of_char c :: nat) \<le> 32) u"

text \<open>\<^verbatim>\<open>_UNSAFE_URL_BYTES_TO_REMOVE\<close>: every tab, carriage return and line feed goes.\<close>

definition remove_unsafe :: "string \<Rightarrow> string" where
  "remove_unsafe u = filter (\<lambda>c. c \<notin> set [CHR 0x09, CHR 0x0D, CHR 0x0A]) u"

text \<open>\<open>split_scheme\<close>: the scheme (lower-cased, empty when there is none) and the rest.\<close>

definition split_scheme :: "string \<Rightarrow> string \<times> string" where
  "split_scheme u =
     (let s = takeWhile (\<lambda>c. c \<noteq> CHR '':'') u in
      if s \<noteq> u \<and> s \<noteq> [] \<and> hd s \<in> set ascii_letters \<and> list_all (\<lambda>c. c \<in> set scheme_chars) s
      then (lower s, drop (length s + 1) u)
      else ('''', u))"

text \<open>
  \<open>split_netloc\<close>: after a leading \<^verbatim>\<open>//\<close> the authority runs to the first of
  \<^verbatim>\<open>/ ? #\<close>; the authority and what follows it.
\<close>

definition split_netloc :: "string \<Rightarrow> string \<times> string" where
  "split_netloc u =
     (if take 2 u = ''//''
      then (takeWhile (\<lambda>c. c \<notin> set ''/?#'') (drop 2 u),
            dropWhile (\<lambda>c. c \<notin> set ''/?#'') (drop 2 u))
      else ('''', u))"

text \<open>
  The checks of the authority, each a \<^verbatim>\<open>ValueError\<close>: a square bracket without its
  partner, a bracketed host that is no address, an authority that normalises to one with
  a delimiter.
\<close>

definition check_brackets :: "env \<Rightarrow> string \<Rightarrow> exn option" where
  "check_brackets e netloc =
     (let opening = CHR ''['' \<in> set netloc; closing = CHR '']'' \<in> set netloc in
      if (opening \<and> \<not> closing) \<or> (closing \<and> \<not> opening) then Some (ValueError InvalidURL)
      else if opening \<and> closing \<and>
              \<not> bracketed_host_ok e
                  (takeWhile (\<lambda>c. c \<noteq> CHR '']'')
                     (drop 1 (dropWhile (\<lambda>c. c \<noteq> CHR ''['') netloc)))
      then Some (ValueError InvalidURL)
      else None)"

definition checknetloc :: "env \<Rightarrow> string \<Rightarrow> exn option" where
  "checknetloc e netloc =
     (if netloc \<noteq> [] \<and> \<not> list_all (\<lambda>c. (of_char c :: nat) < 128) netloc \<and> \<not> nfkc_ok e netloc
      then Some (ValueError InvalidURL)
      else None)"

definition splitparams :: "string \<Rightarrow> string" where
  "splitparams u =
     (if CHR ''/'' \<in> set u
      then (let seg = rev (takeWhile (\<lambda>c. c \<noteq> CHR ''/'') (rev u)) in
            if CHR '';'' \<in> set seg
            then take (length u - length seg) u @ takeWhile (\<lambda>c. c \<noteq> CHR '';'') seg
            else u)
      else takeWhile (\<lambda>c. c \<noteq> CHR '';'') u)"

definition urlparse_path :: "env \<Rightarrow> string \<Rightarrow> exn + string" where
  "urlparse_path e url =
     (let (scheme, rest) = split_scheme (remove_unsafe (lstrip_c0 url));
          (netloc, rest') = split_netloc rest
      in case check_brackets e netloc of
           Some x \<Rightarrow> Inl x
         | None \<Rightarrow>
             (case checknetloc e netloc of
                Some x \<Rightarrow> Inl x
              | None \<Rightarrow>
                  (let p = takeWhile (\<lambda>c. c \<noteq> CHR ''?'')
                             (takeWhile (\<lambda>c. c \<noteq> CHR ''#'') rest')
                   in Inr (if scheme \<in> set uses_params \<and> CHR '';'' \<in> set p
                           then splitparams p else p))))"

text \<open>\<^verbatim>\<open>os.path.basename\<close> (POSIX): what follows the last slash.\<close>

definition basename :: "string \<Rightarrow> string" where
  "basename p = rev (takeWhile (\<lambda>c. c \<noteq> CHR ''/'') (rev p))"

text \<open>\<^verbatim>\<open>str\<close> of an integer, as the f-string of the \<^verbatim>\<open>Range\<close> header formats it.\<close>

fun str_nat :: "nat \<Rightarrow> string" where
  "str_nat n = (if n < 10 then [''0123456789'' ! n]
                else str_nat (n div 10) @ [''0123456789'' ! (n mod 10)])"

declare str_nat.simps [simp del]

definition str_int :: "int \<Rightarrow> string" where
  "str_int i = (if i < 0 then ''-'' @ str_nat (nat (- i)) else str_nat (nat i))"

text \<open>\<^verbatim>\<open>int(headers.get('Content-Length', 0))\<close>.\<close>

definition int_of_header :: "header_value \<Rightarrow> exn + int" where
  "int_of_header h =
     (case h of Missing \<Rightarrow> Inr 0
              | Malformed \<Rightarrow> Inl (ValueError NotAnInteger)
              | Length n \<Rightarrow> Inr n)"

text \<open>\<^verbatim>\<open>response.raise_for_status()\<close>: an \<^verbatim>\<open>HTTPError\<close> for a 4xx or 5xx status.\<close>

definition raise_for_status :: "response \<Rightarrow> exn option" where
  "raise_for_status r =
     (if 400 \<le> status_code r \<and> status_code r < 600 then Some (HTTPError (status_code r))
      else None)"

text \<open>
  \<^verbatim>\<open>requests.get\<close>, \<^verbatim>\<open>requests.head\<close>, \<^verbatim>\<open>session.get\<close>: the request is logged and the
  network answers it or fails.
\<close>

definition send :: "env \<Rightarrow> request \<Rightarrow> world \<Rightarrow> (exn + response) \<times> world" where
  "send e req w =
     (case net e (trace w) req of
        NoResponse \<Rightarrow> Inl ConnectionError
      | Response r \<Rightarrow> Inr r,
      w\<lparr>trace := trace w @ [Sent req]\<rparr>)"

text \<open>
  The working directory, as the calls of \<^verbatim>\<open>os.path\<close> and \<^verbatim>\<open>open\<close> see it for a
  name without slash (\<^verbatim>\<open>os.path.basename\<close> returns no other):
  \<^item> a name with a zero byte makes \<^verbatim>\<open>os.stat\<close> and \<^verbatim>\<open>open\<close> raise
    \<^verbatim>\<open>ValueError\<close>, the empty name \<^verbatim>\<open>FileNotFoundError\<close>, a name longer than the
    file system takes an \<^verbatim>\<open>OSError\<close>; \<^verbatim>\<open>os.path.exists\<close> turns each into
    \<^verbatim>\<open>False\<close>;
  \<^item> \<^verbatim>\<open>.\<close> and \<^verbatim>\<open>..\<close> are directories, whatever else the directory holds;
  \<^item> \<^verbatim>\<open>open\<close> of a directory raises \<^verbatim>\<open>IsADirectoryError\<close>.
  Every other file can be read, created and extended: no missing permission, no full
  disk.
\<close>

definition name_error :: "env \<Rightarrow> string \<Rightarrow> exn option" where
  "name_error e p =
     (if CHR 0x00 \<in> set p then Some (ValueError EmbeddedNull)
      else if p = [] then Some (OSError ENOENT)
      else if name_max e < length p then Some (OSError ENAMETOOLONG)
      else None)"

definition lookup_file :: "env \<Rightarrow> world \<Rightarrow> string \<Rightarrow> node option" where
  "lookup_file e w p =
     (if name_error e p \<noteq> None then None
      else if p = ''.'' \<or> p = ''..'' then Some Dir
      else fs w p)"

definition path_exists :: "env \<Rightarrow> world \<Rightarrow> string \<Rightarrow> bool" where
  "path_exists e w p = (lookup_file e w p \<noteq> None)"

definition getsize :: "env \<Rightarrow> world \<Rightarrow> string \<Rightarrow> exn + int" where
  "getsize e w p =
     (case lookup_file e w p of
        None \<Rightarrow> Inl (OSError ENOENT)
      | Some (File b) \<Rightarrow> Inr (int (length b))
      | Some Dir \<Rightarrow> Inr (dir_size e p))"

text \<open>The exception that \<^verbatim>\<open>open(p, mode)\<close> raises, for each of the modes in use.\<close>

definition open_error :: "env \<Rightarrow> world \<Rightarrow> string \<Rightarrow> exn option" where
  "open_error e w p =
     (case name_error e p of
        Some x \<Rightarrow> Some x
      | None \<Rightarrow> (if lookup_file e w p = Some Dir then Some (OSError EISDIR) else None))"

definition open_file :: "env \<Rightarrow> string \<Rightarrow> open_mode \<Rightarrow> world \<Rightarrow> exn option \<times> world" where
  "open_file e p mode w =
     (case open_error e w p of
        Some x \<Rightarrow> (Some x, w)
      | None \<Rightarrow>
          (None,
           w\<lparr>fs := (fs w)(p \<mapsto> File (case mode of
                                          Truncate \<Rightarrow> []
                                        | Append \<Rightarrow> (case fs w p of Some (File b) \<Rightarrow> b | _ \<Rightarrow> []))),
             trace := trace w @ [Opened p mode]\<rparr>))"

definition write_file :: "string \<Rightarrow> bytes \<Rightarrow> world \<Rightarrow> world" where
  "write_file p c w =
     w\<lparr>fs := (fs w)(p \<mapsto> File (case fs w p of Some (File b) \<Rightarrow> b @ c | _ \<Rightarrow> c))\<rparr>"

definition file_length :: "world \<Rightarrow> string \<Rightarrow> nat" where
  "file_length w p = (case fs w p of Some (File b) \<Rightarrow> length b | _ \<Rightarrow> 0)"

text \<open>
  The end of the \<^verbatim>\<open>with open(...)\<close> block. The handle was opened on a file of
  \<open>start\<close> bytes; of the bytes written behind them, those that landed stay on disk.
\<close>

definition close_file :: "env \<Rightarrow> string \<Rightarrow> nat \<Rightarrow> world \<Rightarrow> world" where
  "close_file e p start w =
     (case fs w p of
        Some (File c) \<Rightarrow>
          w\<lparr>fs := (fs w)(p \<mapsto> File (take (start + landed e (trace w) p (length c - start)) c))\<rparr>
      | _ \<Rightarrow> w)"

subsection \<open>The class \<^verbatim>\<open>BulkDownloader\<close>\<close>

definition user_agent :: "(string \<times> string) list" where
  "user_agent = [(''User-Agent'', ''BulkDownloader'')]"

definition head_request :: "string \<Rightarrow> (string \<times> string) list \<Rightarrow> request" where
  "head_request url headers =
     \<lparr>req_method = HEAD, req_url = url, req_headers = headers, req_auth = None\<rparr>"

definition get_request :: "string \<Rightarrow> (string \<times> string) list \<Rightarrow> request" where
  "get_request url headers =
     \<lparr>req_method = GET, req_url = url, req_headers = headers, req_auth = None\<rparr>"

definition test_url :: string where
  "test_url = ''https://urs.earthdata.nasa.gov/profile''"

definition auth_url :: string where
  "auth_url = ''https://urs.earthdata.nasa.gov/oauth/authorize''"

text \<open>
  \<^verbatim>\<open>get_new_cookie\<close>: both prompts, the authorisation request, then the jar is saved or
  the process exits with status 1. A failure of the request itself is not caught.
\<close>

definition get_new_cookie :: "env \<Rightarrow> world \<Rightarrow> exn option \<times> world" where
  "get_new_cookie e w =
     (let w1 = w\<lparr>trace := trace w @ [Input ''Enter Earthdata username: '']\<rparr>;
          w2 = w1\<lparr>trace := trace w1 @ [Getpass ''Enter Earthdata password: '']\<rparr>
      in case send e \<lparr>req_method = GET, req_url = auth_url, req_headers = [],
                      req_auth = Some (typed_username e, typed_password e)\<rparr> w2 of
           (Inl x, w3) \<Rightarrow> (Some x, w3)
         | (Inr r, w3) \<Rightarrow>
             if status_code r = 200 then (None, w3\<lparr>trace := trace w3 @ [CookieSaved]\<rparr>)
             else (Some (SystemExit 1), w3))"

text \<open>\<^verbatim>\<open>except requests.RequestException\<close>.\<close>

definition is_request_exception :: "exn \<Rightarrow> bool" where
  "is_request_exception x = (case x of ConnectionError \<Rightarrow> True | HTTPError _ \<Rightarrow> True | _ \<Rightarrow> False)"

definition check_or_get_cookie :: "env \<Rightarrow> world \<Rightarrow> exn option \<times> world" where
  "check_or_get_cookie e w =
     (case send e (get_request test_url user_agent) w of
        (Inr r, w1) \<Rightarrow> if status_code r = 200 then (None, w1) else get_new_cookie e w1
      | (Inl x, w1) \<Rightarrow> if is_request_exception x then get_new_cookie e w1 else (Some x, w1))"

text \<open>
  \<^verbatim>\<open>__init__\<close>, without the loading of the cookie jar: empty lists, a zero counter, and
  the credential check.
\<close>

definition new_downloader :: "string list \<Rightarrow> downloader" where
  "new_downloader urls = \<lparr>file_urls = urls, total_bytes = 0, success = [], failed = []\<rparr>"

definition init :: "env \<Rightarrow> string list \<Rightarrow> world \<Rightarrow> (exn + downloader) \<times> world" where
  "init e urls w =
     (case check_or_get_cookie e w of
        (None, w1) \<Rightarrow> (Inr (new_downloader urls), w1)
      | (Some x, w1) \<Rightarrow> (Inl x, w1))"

definition calculate_md5 :: "env \<Rightarrow> world \<Rightarrow> string \<Rightarrow> exn + string" where
  "calculate_md5 e w file_path =
     (case open_error e w file_path of
        Some x \<Rightarrow> Inl x
      | None \<Rightarrow>
          (case lookup_file e w file_path of
             Some (File b) \<Rightarrow> Inr (md5 e b)
           | _ \<Rightarrow> Inl (OSError ENOENT)))"

text \<open>\<^verbatim>\<open>if expected_md5:\<close> is false for \<^verbatim>\<open>None\<close> and for the empty string.\<close>

definition verify_file_integrity :: "env \<Rightarrow> world \<Rightarrow> string \<Rightarrow> string option \<Rightarrow> exn option" where
  "verify_file_integrity e w local_filename expected_md5 =
     (case expected_md5 of
        None \<Rightarrow> None
      | Some expected \<Rightarrow>
          if expected = [] then None
          else (case calculate_md5 e w local_filename of
                  Inl x \<Rightarrow> Some x
                | Inr actual_md5 \<Rightarrow>
                    if actual_md5 \<noteq> expected
                    then Some (ValueError (Md5Mismatch local_filename expected actual_md5))
                    else None))"

text \<open>
  \<^verbatim>\<open>show_progress\<close>: the percentage it writes, an exact fraction here where Python
  computes a float. True division raises on a zero divisor.
\<close>

definition truediv :: "int \<Rightarrow> int \<Rightarrow> exn + rat" where
  "truediv a b = (if b = 0 then Inl ZeroDivisionError else Inr (of_int a / of_int b))"

definition show_progress :: "int \<Rightarrow> int \<Rightarrow> exn + rat" where
  "show_progress downloaded total_size =
     (if total_size \<noteq> 0
      then (case truediv downloaded total_size of Inl x \<Rightarrow> Inl x | Inr q \<Rightarrow> Inr (q * 100))
      else Inr 0)"

text \<open>
  Lines 107 to 122 of \<^verbatim>\<open>download_file\<close>: what is already there. Either the file is
  complete, or a transfer starts from \<open>local_size\<close> with the given headers.
\<close>

datatype plan = Complete int | Transfer int "(string \<times> string) list"

definition existing_file ::
  "env \<Rightarrow> string \<Rightarrow> string \<Rightarrow> (string \<times> string) list \<Rightarrow> world \<Rightarrow> (exn + plan) \<times> world" where
  "existing_file e url local_filename headers w =
     (if path_exists e w local_filename then
        (case getsize e w local_filename of
           Inl x \<Rightarrow> (Inl x, w)
         | Inr local_size \<Rightarrow>
             (case send e (head_request url headers) w of
                (Inl x, w1) \<Rightarrow> (Inl x, w1)
              | (Inr r, w1) \<Rightarrow>
                  (case int_of_header (content_length r) of
                     Inl x \<Rightarrow> (Inl x, w1)
                   | Inr total_size \<Rightarrow>
                       if local_size = total_size then (Inr (Complete local_size), w1)
                       else (Inr (Transfer local_size
                                   (headers @ [(''Range'', ''bytes='' @ str_int local_size @ ''-'')])),
                             w1))))
      else (Inr (Transfer 0 headers), w))"

text \<open>
  What the file holds once it is opened (line 130): mode \<^verbatim>\<open>'ab'\<close> keeps the old bytes,
  mode \<^verbatim>\<open>'wb'\<close> starts from nothing.
\<close>

definition kept :: "world \<Rightarrow> string \<Rightarrow> int \<Rightarrow> bytes" where
  "kept w local_filename local_size =
     (if 0 < local_size then (case fs w local_filename of Some (File b) \<Rightarrow> b | _ \<Rightarrow> [])
      else [])"

text \<open>The loop over \<^verbatim>\<open>response.iter_content\<close>, lines 131 to 135.\<close>

fun write_chunks :: "string \<Rightarrow> int \<Rightarrow> bytes list \<Rightarrow> int \<times> world \<Rightarrow> (exn + int) \<times> world" where
  "write_chunks local_filename total_size [] (downloaded_size, w) = (Inr downloaded_size, w)"
| "write_chunks local_filename total_size (chunk # rest) (downloaded_size, w) =
     (if chunk \<noteq> [] then
        (let w1 = write_file local_filename chunk w;
             d = downloaded_size + int (length chunk)
         in case show_progress d total_size of
              Inl x \<Rightarrow> (Inl x, w1)
            | Inr _ \<Rightarrow> write_chunks local_filename total_size rest (d, w1))
      else write_chunks local_filename total_size rest (downloaded_size, w))"

text \<open>
  Lines 124 to 143: the body request, the streaming into the open file, its closing, and
  both size checks.
\<close>

definition transfer ::
  "env \<Rightarrow> string \<Rightarrow> string \<Rightarrow> int \<Rightarrow> (string \<times> string) list \<Rightarrow> world \<Rightarrow> (exn + int) \<times> world" where
  "transfer e url local_filename local_size headers w =
     (case send e (get_request url headers) w of
        (Inl x, w1) \<Rightarrow> (Inl x, w1)
      | (Inr r, w1) \<Rightarrow>
          (case raise_for_status r of
             Some x \<Rightarrow> (Inl x, w1)
           | None \<Rightarrow>
               (case int_of_header (content_length r) of
                  Inl x \<Rightarrow> (Inl x, w1)
                | Inr n \<Rightarrow>
                    (let total_size = n + local_size;
                         mode = (if local_size > 0 then Append else Truncate)
                     in case open_file e local_filename mode w1 of
                          (Some x, w2) \<Rightarrow> (Inl x, w2)
                        | (None, w2) \<Rightarrow>
                            (case write_chunks local_filename total_size (chunks r)
                                    (local_size, w2) of
                               (streamed, w3) \<Rightarrow>
                                 (let w4 = close_file e local_filename
                                             (file_length w2 local_filename) w3
                                  in case streamed of
                                       Inl x \<Rightarrow> (Inl x, w4)
                                     | Inr downloaded_size \<Rightarrow>
                                         if broken r then (Inl ConnectionError, w4)
                                         else if downloaded_size \<noteq> total_size
                                         then (Inl (ValueError (DownloadedSize downloaded_size
                                                                  total_size)), w4)
                                         else (case getsize e w4 local_filename of
                                                 Inl x \<Rightarrow> (Inl x, w4)
                                               | Inr file_size \<Rightarrow>
                                                   if file_size \<noteq> total_size
                                                   then (Inl (ValueError (FinalSize file_size
                                                                            total_size)), w4)
                                                   else (Inr file_size, w4))))))))"

text \<open>The body of the \<^verbatim>\<open>try\<close>, lines 107 to 148.\<close>

definition try_block ::
  "env \<Rightarrow> string \<Rightarrow> string option \<Rightarrow> string \<Rightarrow> (string \<times> string) list \<Rightarrow>
   downloader \<times> world \<Rightarrow> (exn + downloader) \<times> world" where
  "try_block e url expected_md5 local_filename headers s =
     (case s of (st, w) \<Rightarrow>
       (case existing_file e url local_filename headers w of
          (Inl x, w1) \<Rightarrow> (Inl x, w1)
        | (Inr (Complete local_size), w1) \<Rightarrow>
            (case verify_file_integrity e w1 local_filename expected_md5 of
               Some x \<Rightarrow> (Inl x, w1)
             | None \<Rightarrow>
                 (Inr (st\<lparr>success := success st @ [local_filename],
                          total_bytes := total_bytes st + local_size\<rparr>), w1))
        | (Inr (Transfer local_size headers'), w1) \<Rightarrow>
            (case transfer e url local_filename local_size headers' w1 of
               (Inl x, w2) \<Rightarrow> (Inl x, w2)
             | (Inr file_size, w2) \<Rightarrow>
                 (case verify_file_integrity e w2 local_filename expected_md5 of
                    Some x \<Rightarrow> (Inl x, w2)
                  | None \<Rightarrow>
                      (Inr (st\<lparr>total_bytes := total_bytes st + file_size,
                               success := success st @ [local_filename]\<rparr>), w2)))))"

text \<open>\<^verbatim>\<open>except (requests.RequestException, ValueError)\<close>.\<close>

definition caught :: "exn \<Rightarrow> bool" where
  "caught x = (case x of ValueError _ \<Rightarrow> True | _ \<Rightarrow> is_request_exception x)"

text \<open>Line 103, before the \<^verbatim>\<open>try\<close>: what \<^verbatim>\<open>urlparse\<close> raises is not caught.\<close>

definition local_filename_of :: "env \<Rightarrow> string \<Rightarrow> exn + string" where
  "local_filename_of e url =
     (case urlparse_path e url of Inl x \<Rightarrow> Inl x | Inr p \<Rightarrow> Inr (basename p))"

definition download_file ::
  "env \<Rightarrow> string \<Rightarrow> string option \<Rightarrow> downloader \<times> world \<Rightarrow> (exn + downloader) \<times> world" where
  "download_file e url expected_md5 s =
     (case local_filename_of e url of
        Inl x \<Rightarrow> (Inl x, snd s)
      | Inr local_filename \<Rightarrow>
          (case try_block e url expected_md5 local_filename user_agent s of
             (Inr st', w') \<Rightarrow> (Inr st', w')
           | (Inl x, w') \<Rightarrow>
               if caught x then (Inr ((fst s)\<lparr>failed := failed (fst s) @ [url]\<rparr>), w')
               else (Inl x, w')))"

text \<open>The loop of \<^verbatim>\<open>download_files\<close>: every URL in order, no checksum given.\<close>

fun download_each ::
  "env \<Rightarrow> string list \<Rightarrow> downloader \<times> world \<Rightarrow> (exn + downloader) \<times> world" where
  "download_each e [] (st, w) = (Inr st, w)"
| "download_each e (url # urls) (st, w) =
     (case download_file e url None (st, w) of
        (Inl x, w') \<Rightarrow> (Inl x, w')
      | (Inr st', w') \<Rightarrow> download_each e urls (st', w'))"

definition download_files :: "env \<Rightarrow> downloader \<times> world \<Rightarrow> (exn + downloader) \<times> world" where
  "download_files e s = download_each e (file_urls (fst s)) s"

subsection \<open>Reading off a run\<close>

text \<open>The size that \<^verbatim>\<open>os.path.getsize\<close> reports for an entry.\<close>

definition size_of_node :: "env \<Rightarrow> string \<Rightarrow> node \<Rightarrow> int" where
  "size_of_node e p nd = (case nd of File b \<Rightarrow> int (length b) | Dir \<Rightarrow> dir_size e p)"

text \<open>
  What is on disk after a transfer into \<open>p\<close> that started from \<open>s\<close> bytes: the bytes
  that were kept, and of the streamed bytes those that landed.
\<close>

definition on_disk ::
  "env \<Rightarrow> world \<Rightarrow> string \<Rightarrow> string \<Rightarrow> int \<Rightarrow> (string \<times> string) list \<Rightarrow> response \<Rightarrow> bytes" where
  "on_disk e w url p s h r =
     kept w p s @
     take (landed e (trace w @ [Sent (get_request url h),
                                Opened p (if 0 < s then Append else Truncate)]) p
             (length (concat (chunks r))))
          (concat (chunks r))"

text \<open>
  A target that cannot stop the batch: its URL is parsed, and its file name can be opened
  or is refused with an exception that line 150 catches.
\<close>

definition downloadable :: "env \<Rightarrow> world \<Rightarrow> string \<Rightarrow> bool" where
  "downloadable e w url =
     (case local_filename_of e url of
        Inl x \<Rightarrow> False
      | Inr p \<Rightarrow> (case open_error e w p of None \<Rightarrow> True | Some x \<Rightarrow> caught x))"

text \<open>\<open>the_name\<close>: the local file name of a URL that is parsed.\<close>

definition the_name :: "env \<Rightarrow> string \<Rightarrow> string" where
  "the_name e url = (case local_filename_of e url of Inl x \<Rightarrow> [] | Inr p \<Rightarrow> p)"


text \<open>
  The outcome of a batch is described by one entry per target: \<open>None\<close> for a failure,
  \<open>Some n\<close> for a success that counted \<open>n\<close> bytes. From such a list, what each list
  of the downloader gains and what the byte counter gains.
\<close>

definition recorded_success :: "env \<Rightarrow> string list \<Rightarrow> int option list \<Rightarrow> string list" where
  "recorded_success e urls rs =
     map (\<lambda>(u, r). the_name e u) (filter (\<lambda>(u, r). r \<noteq> None) (zip urls rs))"

definition recorded_failed :: "string list \<Rightarrow> int option list \<Rightarrow> string list" where
  "recorded_failed urls rs = map fst (filter (\<lambda>(u, r). r = None) (zip urls rs))"

definition counted_bytes :: "int option list \<Rightarrow> int" where
  "counted_bytes rs = sum_list (map (\<lambda>r. case r of None \<Rightarrow> 0 | Some n \<Rightarrow> n) rs)"

subsection \<open>Concrete runs\<close>

text \<open>
  Worlds, networks and environments on which the theorems below are exercised. First an
  environment around a given network: the digest is the content itself, every bracketed
  host and every authority passes, names have up to 255 bytes, a directory has 4096, and
  the disk loses nothing.
\<close>

definition env_of :: "(event list \<Rightarrow> request \<Rightarrow> outcome) \<Rightarrow> env" where
  "env_of n =
     \<lparr>net = n, md5 = (\<lambda>b. b), typed_username = ''user'', typed_password = ''secret'',
      bracketed_host_ok = (\<lambda>h. True), nfkc_ok = (\<lambda>a. True), name_max = 255,
      dir_size = (\<lambda>p. 4096), landed = (\<lambda>t p n. n)\<rparr>"

definition empty_dir :: world where
  "empty_dir = \<lparr>fs = Map.empty, trace = []\<rparr>"

text \<open>A server that answers every request with status 200 and an empty body.\<close>

definition ok_empty :: response where
  "ok_empty = \<lparr>status_code = 200, content_length = Length 0, chunks = [], broken = False\<rparr>"

definition env_ok :: env where
  "env_ok = env_of (\<lambda>t req. Response ok_empty)"

text \<open>
  A server that holds the three bytes \<^verbatim>\<open>abc\<close> under \<^verbatim>\<open>https://h/a/f\<close>, answers a
  \<^verbatim>\<open>HEAD\<close> for \<^verbatim>\<open>https://h/b/f\<close> with a length of 3, and is unreachable otherwise.
\<close>

definition net_two :: "event list \<Rightarrow> request \<Rightarrow> outcome" where
  "net_two t req =
     (if req_method req = GET \<and> req_url req = ''https://h/a/f''
      then Response \<lparr>status_code = 200, content_length = Length 3,
                     chunks = [''ab'', ''c''], broken = False\<rparr>
      else if req_method req = HEAD \<and> req_url req = ''https://h/b/f''
      then Response \<lparr>status_code = 200, content_length = Length 3,
                     chunks = [], broken = False\<rparr>
      else NoResponse)"

definition env_two :: env where
  "env_two = env_of net_two"

text \<open>The working directory with one file, \<^verbatim>\<open>f\<close>, of three bytes.\<close>

definition dir_abc :: world where
  "dir_abc = \<lparr>fs = [''f'' \<mapsto> File ''abc''], trace = []\<rparr>"

text \<open>A server that answers every request with status 304 and no body.\<close>

definition not_modified :: response where
  "not_modified = \<lparr>status_code = 304, content_length = Missing, chunks = [], broken = False\<rparr>"

definition env_304 :: env where
  "env_304 = env_of (\<lambda>t req. Response not_modified)"

text \<open>A server that answers every request with status 404 and an error page.\<close>

definition not_found :: response where
  "not_found = \<lparr>status_code = 404, content_length = Length 9, chunks = [''Not Found''], broken = False\<rparr>"

definition env_404 :: env where
  "env_404 = env_of (\<lambda>t req. Response not_found)"

text \<open>
  A server without range support: it reports a total of five bytes and answers every
  \<^verbatim>\<open>GET\<close> with status 200 and all five bytes, whatever \<^verbatim>\<open>Range\<close> was asked for.
\<close>

definition env_full :: env where
  "env_full =
     env_of (\<lambda>t req.
              if req_method req = HEAD
              then Response \<lparr>status_code = 200, content_length = Length 5,
                             chunks = [], broken = False\<rparr>
              else Response \<lparr>status_code = 200, content_length = Length 5,
                             chunks = [''vwxyz''], broken = False\<rparr>)"

text \<open>The working directory with one empty file, as an attempt that broke at once leaves it.\<close>

definition dir_touched :: world where
  "dir_touched = \<lparr>fs = [''f'' \<mapsto> File []], trace = []\<rparr>"

text \<open>
  A server with range support: a total of five bytes, and the last two of them for the
  request that carries \<^verbatim>\<open>Range: bytes=3-\<close>.
\<close>

definition partial_content :: response where
  "partial_content = \<lparr>status_code = 206, content_length = Length 2,
                       chunks = [''de''], broken = False\<rparr>"

definition env_resume :: env where
  "env_resume =
     env_of (\<lambda>t req.
              if req_method req = HEAD
              then Response \<lparr>status_code = 200, content_length = Length 5,
                             chunks = [], broken = False\<rparr>
              else if map_of (req_headers req) ''Range'' = Some ''bytes=3-''
              then Response partial_content
              else NoResponse)"

text \<open>A server that announces five bytes and ends the body after two.\<close>

definition truncated :: response where
  "truncated = \<lparr>status_code = 200, content_length = Length 5, chunks = [''ab''], broken = False\<rparr>"

definition env_short :: env where
  "env_short = env_of (\<lambda>t req. Response truncated)"

text \<open>
  A server that sends the five bytes it announces, and a disk on which only three of the
  bytes written through a handle are found after it is closed.
\<close>

definition five_bytes :: response where
  "five_bytes = \<lparr>status_code = 200, content_length = Length 5, chunks = [''vw'', ''xyz''], broken = False\<rparr>"

definition env_lossy :: env where
  "env_lossy = (env_of (\<lambda>t req. Response five_bytes))\<lparr>landed := (\<lambda>t p n. 3)\<rparr>"

text \<open>
  The identity provider is reachable and accepts the login, the profile page is not
  reachable.
\<close>

definition env_renew :: env where
  "env_renew = env_of (\<lambda>t req. if req_url req = auth_url then Response ok_empty else NoResponse)"


section \<open>Properties\<close>

subsection \<open>Auxiliary facts\<close>

lemma caught_simps [simp]:
  "caught ConnectionError" "caught (HTTPError k)" "caught (ValueError v)"
  "\<not> caught (OSError n)" "\<not> caught ZeroDivisionError" "\<not> caught (SystemExit k)"
  by (simp_all add: caught_def is_request_exception_def)

lemma show_progress_Inr:
  "show_progress d t = Inr (if t = 0 then 0 else of_int d / of_int t * 100)"
  by (simp add: show_progress_def truediv_def)

text \<open>The loop writes every chunk behind what the file holds and counts its bytes.\<close>

lemma write_chunks_result:
  "fs w p = Some (File b) \<Longrightarrow>
   write_chunks p t cs (d, w) =
     (Inr (d + int (length (concat cs))), w\<lparr>fs := (fs w)(p \<mapsto> File (b @ concat cs))\<rparr>)"
proof (induction cs arbitrary: d w b)
  case Nil
  then show ?case by (simp add: map_upd_triv)
next
  case (Cons c cs)
  show ?case
  proof (cases "c = []")
    case True
    with Cons show ?thesis by simp
  next
    case False
    define w1 where "w1 = w\<lparr>fs := (fs w)(p \<mapsto> File (b @ c))\<rparr>"
    have step: "write_chunks p t (c # cs) (d, w) = write_chunks p t cs (d + int (length c), w1)"
      using Cons.prems False by (simp add: show_progress_Inr write_file_def w1_def)
    have "fs w1 p = Some (File (b @ c))"
      by (simp add: w1_def)
    then have rest: "write_chunks p t cs (d + int (length c), w1) =
            (Inr (d + int (length c) + int (length (concat cs))),
             w1\<lparr>fs := (fs w1)(p \<mapsto> File ((b @ c) @ concat cs))\<rparr>)"
      by (rule Cons.IH)
    have same: "w1\<lparr>fs := (fs w1)(p \<mapsto> File ((b @ c) @ concat cs))\<rparr> =
                w\<lparr>fs := (fs w)(p \<mapsto> File (b @ concat (c # cs)))\<rparr>"
      by (simp add: w1_def)
    have count: "d + int (length c) + int (length (concat cs)) = d + int (length (concat (c # cs)))"
      by simp
    show ?thesis
      unfolding step rest same count by (rule refl)
  qed
qed

text \<open>Names that can be opened.\<close>

lemma open_error_None:
  assumes "open_error e w p = None"
  shows "name_error e p = None" and "p \<noteq> ''.''" and "p \<noteq> ''..''" and "fs w p \<noteq> Some Dir"
    and "lookup_file e w' p = fs w' p"
proof -
  show n: "name_error e p = None"
    using assms by (simp add: open_error_def split: option.splits)
  have d: "lookup_file e w p \<noteq> Some Dir"
    using assms n by (simp add: open_error_def split: if_splits)
  show a: "p \<noteq> ''.''" and b: "p \<noteq> ''..''"
    using d n by (auto simp: lookup_file_def)
  show "fs w p \<noteq> Some Dir"
    using d n a b by (simp add: lookup_file_def)
  show "lookup_file e w' p = fs w' p"
    using n a b by (simp add: lookup_file_def)
qed

lemma lookup_file_File:
  "lookup_file e w p = Some (File b) \<Longrightarrow> open_error e w p = None \<and> fs w p = Some (File b)"
  by (auto simp: lookup_file_def open_error_def split: if_splits option.splits)

lemma lookup_file_fs: "fs w1 = fs w \<Longrightarrow> lookup_file e w1 p = lookup_file e w p"
  by (simp add: lookup_file_def)

lemma open_error_fs: "fs w1 = fs w \<Longrightarrow> open_error e w1 p = open_error e w p"
  by (simp add: open_error_def lookup_file_def)

lemma existing_file_absent:
  "lookup_file e w p = None \<Longrightarrow> existing_file e url p h w = (Inr (Transfer 0 h), w)"
  by (simp add: existing_file_def path_exists_def)

lemma existing_file_present:
  "lookup_file e w p = Some nd \<Longrightarrow>
   existing_file e url p h w =
     (case net e (trace w) (head_request url h) of
        NoResponse \<Rightarrow> Inl ConnectionError
      | Response r \<Rightarrow>
          (case int_of_header (content_length r) of
             Inl x \<Rightarrow> Inl x
           | Inr t \<Rightarrow>
               if size_of_node e p nd = t then Inr (Complete (size_of_node e p nd))
               else Inr (Transfer (size_of_node e p nd)
                          (h @ [(''Range'', ''bytes='' @ str_int (size_of_node e p nd) @ ''-'')]))),
      w\<lparr>trace := trace w @ [Sent (head_request url h)]\<rparr>)"
  by (cases nd)
     (simp_all add: existing_file_def path_exists_def getsize_def send_def size_of_node_def
           split: outcome.splits sum.splits)

lemma int_of_header_caught: "int_of_header v = Inl x \<Longrightarrow> caught x"
  by (cases v) (auto simp: int_of_header_def)

lemma existing_file_outcome:
  assumes "existing_file e url p h w = (res, w1)"
  shows "fs w1 = fs w"
    and "\<And>x. res = Inl x \<Longrightarrow> caught x"
    and "\<And>k. res = Inr (Complete k) \<Longrightarrow>
           (\<exists>nd. lookup_file e w p = Some nd \<and> k = size_of_node e p nd)"
proof -
  show "fs w1 = fs w"
  proof (cases "lookup_file e w p")
    case None
    with assms show ?thesis by (simp add: existing_file_absent)
  next
    case (Some b)
    with assms show ?thesis by (auto simp: existing_file_present)
  qed
  show "caught x" if "res = Inl x" for x
  proof (cases "lookup_file e w p")
    case None
    with assms that show ?thesis by (simp add: existing_file_absent)
  next
    case (Some b)
    with assms that show ?thesis
      by (auto simp: existing_file_present int_of_header_caught split: outcome.splits sum.splits if_splits)
  qed
  show "\<exists>nd. lookup_file e w p = Some nd \<and> k = size_of_node e p nd" if "res = Inr (Complete k)" for k
  proof (cases "lookup_file e w p")
    case None
    with assms that show ?thesis by (simp add: existing_file_absent)
  next
    case (Some b)
    with assms that show ?thesis
      by (auto simp: existing_file_present split: outcome.splits sum.splits if_splits)
  qed
qed

lemma transfer_no_response:
  "net e (trace w) (get_request url h) = NoResponse \<Longrightarrow>
   transfer e url p s h w =
     (Inl ConnectionError, w\<lparr>trace := trace w @ [Sent (get_request url h)]\<rparr>)"
  by (simp add: transfer_def send_def)

lemma transfer_http_error:
  "net e (trace w) (get_request url h) = Response r \<Longrightarrow>
   raise_for_status r = Some x \<Longrightarrow>
   transfer e url p s h w = (Inl x, w\<lparr>trace := trace w @ [Sent (get_request url h)]\<rparr>)"
  by (simp add: transfer_def send_def)

lemma transfer_bad_header:
  "net e (trace w) (get_request url h) = Response r \<Longrightarrow>
   raise_for_status r = None \<Longrightarrow>
   int_of_header (content_length r) = Inl x \<Longrightarrow>
   transfer e url p s h w = (Inl x, w\<lparr>trace := trace w @ [Sent (get_request url h)]\<rparr>)"
  by (simp add: transfer_def send_def)

lemma transfer_not_opened:
  "net e (trace w) (get_request url h) = Response r \<Longrightarrow>
   raise_for_status r = None \<Longrightarrow>
   int_of_header (content_length r) = Inr n \<Longrightarrow>
   open_error e w p = Some x \<Longrightarrow>
   transfer e url p s h w = (Inl x, w\<lparr>trace := trace w @ [Sent (get_request url h)]\<rparr>)"
  using open_error_fs [of "w\<lparr>trace := trace w @ [Sent (get_request url h)]\<rparr>" w e p]
  by (simp add: transfer_def send_def open_file_def)

lemma transfer_streamed:
  assumes "net e (trace w) (get_request url h) = Response r"
    and "raise_for_status r = None"
    and "int_of_header (content_length r) = Inr n"
    and "open_error e w p = None"
  shows "transfer e url p s h w =
     (if broken r then Inl ConnectionError
      else if s + int (length (concat (chunks r))) \<noteq> n + s
      then Inl (ValueError (DownloadedSize (s + int (length (concat (chunks r)))) (n + s)))
      else if int (length (on_disk e w url p s h r)) \<noteq> n + s
      then Inl (ValueError (FinalSize (int (length (on_disk e w url p s h r))) (n + s)))
      else Inr (int (length (on_disk e w url p s h r))),
      w\<lparr>fs := (fs w)(p \<mapsto> File (on_disk e w url p s h r)),
        trace := trace w @ [Sent (get_request url h),
                            Opened p (if 0 < s then Append else Truncate)]\<rparr>)"
proof -
  let ?tr = "trace w @ [Sent (get_request url h), Opened p (if 0 < s then Append else Truncate)]"
  define w1 where "w1 = w\<lparr>trace := trace w @ [Sent (get_request url h)]\<rparr>"
  define w2 where "w2 = w\<lparr>fs := (fs w)(p \<mapsto> File (kept w p s)), trace := ?tr\<rparr>"
  define w3 where "w3 = w\<lparr>fs := (fs w)(p \<mapsto> File (kept w p s @ concat (chunks r))), trace := ?tr\<rparr>"
  define w4 where "w4 = w\<lparr>fs := (fs w)(p \<mapsto> File (on_disk e w url p s h r)), trace := ?tr\<rparr>"
  have sent: "send e (get_request url h) w = (Inr r, w1)"
    using assms(1) by (simp add: send_def w1_def)
  have "open_error e w1 p = None"
    using assms(4) open_error_fs [of w1 w e p] by (simp add: w1_def)
  then have opened: "open_file e p (if 0 < s then Append else Truncate) w1 = (None, w2)"
    by (simp add: open_file_def w1_def w2_def kept_def)
  have held: "fs w2 p = Some (File (kept w p s))"
    by (simp add: w2_def)
  have start: "file_length w2 p = length (kept w p s)"
    by (simp add: file_length_def held)
  have "write_chunks p (n + s) (chunks r) (s, w2) =
      (Inr (s + int (length (concat (chunks r)))),
       w2\<lparr>fs := (fs w2)(p \<mapsto> File (kept w p s @ concat (chunks r)))\<rparr>)"
    using held by (rule write_chunks_result)
  moreover have "w2\<lparr>fs := (fs w2)(p \<mapsto> File (kept w p s @ concat (chunks r)))\<rparr> = w3"
    by (simp add: w2_def w3_def)
  ultimately have written: "write_chunks p (n + s) (chunks r) (s, w2) =
      (Inr (s + int (length (concat (chunks r)))), w3)"
    by (simp only:)
  have closed: "close_file e p (length (kept w p s)) w3 = w4"
    by (simp add: close_file_def w3_def w4_def on_disk_def)
  have size: "getsize e w4 p = Inr (int (length (on_disk e w url p s h r)))"
    using open_error_None(5) [OF assms(4), of w4] by (simp add: getsize_def w4_def)
  show ?thesis
    unfolding transfer_def sent
    using assms(2,3) opened written
    by (simp add: start closed size Let_def w4_def [symmetric] del: length_append)
qed

lemma transfer_outcome:
  assumes "transfer e url p s h w = (res, w')"
  shows "\<And>x. res = Inl x \<Longrightarrow> caught x \<or> open_error e w p = Some x"
    and "\<And>k. res = Inr k \<Longrightarrow> \<exists>c. lookup_file e w' p = Some (File c) \<and> k = int (length c)"
    and "\<And>q. fs w' q = Some Dir \<longleftrightarrow> fs w q = Some Dir"
proof -
  consider (none) "net e (trace w) (get_request url h) = NoResponse"
    | (status) r x where "net e (trace w) (get_request url h) = Response r" "raise_for_status r = Some x"
    | (header) r x where "net e (trace w) (get_request url h) = Response r" "raise_for_status r = None"
        "int_of_header (content_length r) = Inl x"
    | (closed) r n x where "net e (trace w) (get_request url h) = Response r" "raise_for_status r = None"
        "int_of_header (content_length r) = Inr n" "open_error e w p = Some x"
    | (streamed) r n where "net e (trace w) (get_request url h) = Response r" "raise_for_status r = None"
        "int_of_header (content_length r) = Inr n" "open_error e w p = None"
    by (cases "net e (trace w) (get_request url h)"; cases "open_error e w p")
       (metis not_Some_eq sum.exhaust_sel outcome.distinct outcome.inject)+
  then have "(\<forall>x. res = Inl x \<longrightarrow> caught x \<or> open_error e w p = Some x) \<and>
             (\<forall>k. res = Inr k \<longrightarrow> (\<exists>c. lookup_file e w' p = Some (File c) \<and> k = int (length c))) \<and>
             (\<forall>q. fs w' q = Some Dir \<longleftrightarrow> fs w q = Some Dir)"
  proof cases
    case none
    from assms have "res = Inl ConnectionError \<and> fs w' = fs w"
      unfolding transfer_no_response [OF none] by auto
    then show ?thesis by simp
  next
    case status
    have "caught x"
      using status(2) by (auto simp: raise_for_status_def split: if_splits)
    moreover from assms have "res = Inl x \<and> fs w' = fs w"
      unfolding transfer_http_error [OF status] by auto
    ultimately show ?thesis by simp
  next
    case header
    have "caught x"
      using header(3) by (rule int_of_header_caught)
    moreover from assms have "res = Inl x \<and> fs w' = fs w"
      unfolding transfer_bad_header [OF header] by auto
    ultimately show ?thesis by simp
  next
    case closed
    from assms have "res = Inl x \<and> fs w' = fs w"
      unfolding transfer_not_opened [OF closed] by auto
    with closed(4) show ?thesis by simp
  next
    case streamed
    note eq = transfer_streamed [OF streamed, of s]
    note nm = open_error_None [OF streamed(4)]
    have w': "w' = w\<lparr>fs := (fs w)(p \<mapsto> File (on_disk e w url p s h r)),
                     trace := trace w @ [Sent (get_request url h),
                                         Opened p (if 0 < s then Append else Truncate)]\<rparr>"
      using assms unfolding eq by simp
    have disk: "lookup_file e w' p = Some (File (on_disk e w url p s h r))"
      unfolding nm(5) [of w'] by (simp add: w')
    have one: "\<forall>x. res = Inl x \<longrightarrow> caught x"
      using assms unfolding eq by (auto split: if_splits)
    have two: "\<forall>k. res = Inr k \<longrightarrow> k = int (length (on_disk e w url p s h r))"
      using assms unfolding eq by (auto split: if_splits)
    have three: "\<forall>q. fs w' q = Some Dir \<longleftrightarrow> fs w q = Some Dir"
      using nm(4) by (auto simp: w')
    from one two three disk show ?thesis by auto
  qed
  then show "\<And>x. res = Inl x \<Longrightarrow> caught x \<or> open_error e w p = Some x"
    and "\<And>k. res = Inr k \<Longrightarrow> \<exists>c. lookup_file e w' p = Some (File c) \<and> k = int (length c)"
    and "\<And>q. fs w' q = Some Dir \<longleftrightarrow> fs w q = Some Dir"
    by blast+
qed

lemma open_error_dirs:
  "(\<And>q. fs w' q = Some Dir \<longleftrightarrow> fs w q = Some Dir) \<Longrightarrow> open_error e w' p = open_error e w p"
  by (simp add: open_error_def lookup_file_def)

lemma verify_outcome:
  "verify_file_integrity e w p m = Some x \<Longrightarrow> lookup_file e w p \<noteq> None \<Longrightarrow>
   caught x \<or> open_error e w p = Some x"
  by (auto simp: verify_file_integrity_def calculate_md5_def open_error_def
           split: option.splits if_splits sum.splits node.splits)

lemma lookup_file_dirs:
  "(\<And>q. fs w' q = Some Dir \<longleftrightarrow> fs w q = Some Dir) \<Longrightarrow>
   lookup_file e w' p = Some Dir \<longleftrightarrow> lookup_file e w p = Some Dir"
  by (simp add: lookup_file_def)

lemma verify_fs:
  "fs w1 = fs w \<Longrightarrow> verify_file_integrity e w1 p m = verify_file_integrity e w p m"
  by (simp add: verify_file_integrity_def calculate_md5_def lookup_file_def open_error_def
           split: option.splits)

lemma try_block_outcome:
  assumes "try_block e url m p h (st, w) = (res, w')"
  shows "(\<forall>x. res = Inl x \<longrightarrow> caught x \<or> open_error e w p = Some x) \<and>
         (\<forall>st'. res = Inr st' \<longrightarrow>
            (\<exists>n. (open_error e w p = None \<longrightarrow> 0 \<le> n) \<and>
                 st' = st\<lparr>success := success st @ [p], total_bytes := total_bytes st + n\<rparr>)
            \<and> verify_file_integrity e w' p m = None \<and> lookup_file e w' p \<noteq> None) \<and>
         (\<forall>q. fs w' q = Some Dir \<longleftrightarrow> fs w q = Some Dir)"
proof -
  obtain r1 w1 where found: "existing_file e url p h w = (r1, w1)"
    by (cases "existing_file e url p h w")
  note facts = existing_file_outcome [OF found]
  show ?thesis
  proof (cases r1)
    case (Inl x)
    with assms found facts(1,2) show ?thesis
      by (auto simp: try_block_def)
  next
    case (Inr pl)
    show ?thesis
    proof (cases pl)
      case (Complete k)
      with Inr facts(3) obtain nd where nd: "lookup_file e w p = Some nd" and k: "k = size_of_node e p nd"
        by blast
      have there: "lookup_file e w1 p \<noteq> None"
        using nd lookup_file_fs [OF facts(1), of e p] by simp
      have pos: "open_error e w p = None \<longrightarrow> 0 \<le> k"
        using nd k by (cases nd) (auto simp: size_of_node_def open_error_def split: option.splits)
      show ?thesis
      proof (cases "verify_file_integrity e w1 p m")
        case None
        with assms found Inr Complete pos there facts(1) show ?thesis
          by (auto simp: try_block_def)
      next
        case (Some x)
        then have "caught x \<or> open_error e w1 p = Some x"
          using there by (rule verify_outcome)
        then have "caught x \<or> open_error e w p = Some x"
          using open_error_fs [OF facts(1), of e p] by simp
        with assms found Inr Complete Some facts(1) show ?thesis
          by (auto simp: try_block_def)
      qed
    next
      case (Transfer s h')
      obtain r2 w2 where moved: "transfer e url p s h' w1 = (r2, w2)"
        by (cases "transfer e url p s h' w1")
      note out = transfer_outcome [OF moved]
      have same: "open_error e w1 p = open_error e w p"
        using open_error_fs [OF facts(1)] .
      have dirs: "\<forall>q. fs w2 q = Some Dir \<longleftrightarrow> fs w q = Some Dir"
        using out(3) facts(1) by simp
      show ?thesis
      proof (cases r2)
        case (Inl x)
        with out(1) same have "caught x \<or> open_error e w p = Some x" by simp
        with assms found Inr Transfer moved Inl dirs show ?thesis
          by (auto simp: try_block_def)
      next
        case r2: (Inr k)
        with out(2) obtain c where c: "lookup_file e w2 p = Some (File c)" and k: "k = int (length c)"
          by blast
        then have pos: "0 \<le> k" and there: "lookup_file e w2 p \<noteq> None"
          by simp_all
        show ?thesis
        proof (cases "verify_file_integrity e w2 p m")
          case None
          with assms found Inr Transfer moved r2 pos there dirs show ?thesis
            by (auto simp: try_block_def)
        next
          case (Some x)
          then have "caught x \<or> open_error e w2 p = Some x"
            using there by (rule verify_outcome)
          moreover have "open_error e w2 p = None"
            using lookup_file_File [OF c] by simp
          ultimately have "caught x" by simp
          with assms found Inr Transfer moved r2 Some dirs show ?thesis
            by (auto simp: try_block_def)
        qed
      qed
    qed
  qed
qed

text \<open>
  One call of \<open>download_file\<close>: an exception leaves it only for a URL that is not
  parsed or a name that cannot be opened; otherwise exactly one list grows by one entry.
  Directories stay directories.
\<close>

lemma download_file_outcome:
  assumes "download_file e url m (st, w) = (res, w')"
  shows "(\<forall>x. res = Inl x \<longrightarrow> \<not> downloadable e w url) \<and>
         (\<forall>st'. res = Inr st' \<longrightarrow>
            (\<exists>p. local_filename_of e url = Inr p \<and>
              (st' = st\<lparr>failed := failed st @ [url]\<rparr> \<or>
               (\<exists>n. (open_error e w p = None \<longrightarrow> 0 \<le> n) \<and>
                    st' = st\<lparr>success := success st @ [p], total_bytes := total_bytes st + n\<rparr>)
               \<and> verify_file_integrity e w' p m = None \<and> lookup_file e w' p \<noteq> None))) \<and>
         (\<forall>q. fs w' q = Some Dir \<longleftrightarrow> fs w q = Some Dir)"
proof (cases "local_filename_of e url")
  case (Inl x)
  with assms show ?thesis
    by (auto simp: download_file_def downloadable_def)
next
  case (Inr p)
  obtain r1 w1 where tried: "try_block e url m p user_agent (st, w) = (r1, w1)"
    by (cases "try_block e url m p user_agent (st, w)")
  note out = try_block_outcome [OF tried]
  show ?thesis
  proof (cases r1)
    case r1: (Inl x)
    show ?thesis
    proof (cases "caught x")
      case True
      with assms tried Inr r1 out show ?thesis
        by (auto simp: download_file_def)
    next
      case False
      with out r1 have "open_error e w p = Some x" by simp
      with False Inr have "\<not> downloadable e w url"
        by (simp add: downloadable_def)
      with assms tried Inr r1 False out show ?thesis
        by (auto simp: download_file_def)
    qed
  next
    case r1: (Inr st1)
    with assms tried Inr out show ?thesis
      by (auto simp: download_file_def)
  qed
qed

lemma basename_no_slash: "CHR ''/'' \<notin> set (basename p)"
  by (auto simp: basename_def dest: set_takeWhileD)

lemma local_filename_no_slash: "local_filename_of e url = Inr p \<Longrightarrow> CHR ''/'' \<notin> set p"
  by (auto simp: local_filename_of_def basename_no_slash split: sum.splits)

lemma the_name_no_slash: "CHR ''/'' \<notin> set (the_name e url)"
  by (auto simp: the_name_def local_filename_no_slash split: sum.splits)

lemma recorded_lengths:
  "length rs = length urls \<Longrightarrow>
   length (recorded_success e urls rs) + length (recorded_failed urls rs) = length urls"
  by (induction rs urls rule: list_induct2) (auto simp: recorded_success_def recorded_failed_def)

lemma recorded_success_no_slash: "x \<in> set (recorded_success e urls rs) \<Longrightarrow> CHR ''/'' \<notin> set x"
  by (auto simp: recorded_success_def the_name_no_slash)

lemma recorded_failed_subset: "x \<in> set (recorded_failed urls rs) \<Longrightarrow> x \<in> set urls"
  by (auto simp: recorded_failed_def dest: set_zip_leftD)

lemma downloadable_dirs:
  "(\<And>q. fs w' q = Some Dir \<longleftrightarrow> fs w q = Some Dir) \<Longrightarrow> downloadable e w' u = downloadable e w u"
  using open_error_dirs [of w' w e] by (simp add: downloadable_def split: sum.splits)

lemma lookup_file_named: "lookup_file e w p \<noteq> None \<Longrightarrow> name_error e p = None"
  by (auto simp: lookup_file_def split: if_splits)

lemma downloadable_opens:
  "downloadable e w u \<Longrightarrow> local_filename_of e u = Inr p \<Longrightarrow> name_error e p = None \<Longrightarrow>
   open_error e w p = None"
  by (auto simp: downloadable_def open_error_def split: if_splits option.splits)

text \<open>One target of a batch that cannot be stopped.\<close>

lemma download_file_step:
  assumes "downloadable e w u" and "download_file e u m (st, w) = (res, w')"
  shows "\<exists>st1 r. res = Inr st1 \<and>
           st1 = st\<lparr>success := success st @ recorded_success e [u] [r],
                     failed := failed st @ recorded_failed [u] [r],
                     total_bytes := total_bytes st + counted_bytes [r]\<rparr> \<and>
           (\<forall>n. r = Some n \<longrightarrow> 0 \<le> n)"
proof (cases res)
  case (Inl x)
  with download_file_outcome [OF assms(2)] assms(1) show ?thesis by simp
next
  case (Inr st1)
  from download_file_outcome [OF assms(2)]
  have "\<forall>st'. res = Inr st' \<longrightarrow>
            (\<exists>p. local_filename_of e u = Inr p \<and>
              (st' = st\<lparr>failed := failed st @ [u]\<rparr> \<or>
               (\<exists>n. (open_error e w p = None \<longrightarrow> 0 \<le> n) \<and>
                    st' = st\<lparr>success := success st @ [p], total_bytes := total_bytes st + n\<rparr>)
               \<and> verify_file_integrity e w' p m = None \<and> lookup_file e w' p \<noteq> None))"
    by (rule conjunct1 [OF conjunct2])
  from this [rule_format, OF Inr]
  obtain p where p: "local_filename_of e u = Inr p"
    and alt: "st1 = st\<lparr>failed := failed st @ [u]\<rparr> \<or>
       (\<exists>n. (open_error e w p = None \<longrightarrow> 0 \<le> n) \<and>
            st1 = st\<lparr>success := success st @ [p], total_bytes := total_bytes st + n\<rparr>)
       \<and> verify_file_integrity e w' p m = None \<and> lookup_file e w' p \<noteq> None"
    by (elim exE conjE)
  have name: "the_name e u = p"
    using p by (simp add: the_name_def)
  from alt show ?thesis
  proof
    assume "st1 = st\<lparr>failed := failed st @ [u]\<rparr>"
    then have "st1 = st\<lparr>success := success st @ recorded_success e [u] [None],
                     failed := failed st @ recorded_failed [u] [None],
                     total_bytes := total_bytes st + counted_bytes [None]\<rparr>"
      by (simp add: recorded_success_def recorded_failed_def counted_bytes_def)
    with Inr show ?thesis
      by (intro exI [of _ st1] exI [of _ None]) simp
  next
    assume "(\<exists>n. (open_error e w p = None \<longrightarrow> 0 \<le> n) \<and>
            st1 = st\<lparr>success := success st @ [p], total_bytes := total_bytes st + n\<rparr>)
       \<and> verify_file_integrity e w' p m = None \<and> lookup_file e w' p \<noteq> None"
    then obtain n where n: "open_error e w p = None \<longrightarrow> 0 \<le> n"
      and st1: "st1 = st\<lparr>success := success st @ [p], total_bytes := total_bytes st + n\<rparr>"
      and there: "lookup_file e w' p \<noteq> None"
      by (elim exE conjE) (rule that)
    have "open_error e w p = None"
      using assms(1) p lookup_file_named [OF there] by (rule downloadable_opens)
    with n have "0 \<le> n" by simp
    moreover have "st1 = st\<lparr>success := success st @ recorded_success e [u] [Some n],
                     failed := failed st @ recorded_failed [u] [Some n],
                     total_bytes := total_bytes st + counted_bytes [Some n]\<rparr>"
      by (simp add: st1 name recorded_success_def recorded_failed_def counted_bytes_def)
    ultimately show ?thesis
      using Inr by (intro exI [of _ st1] exI [of _ "Some n"]) simp
  qed
qed

lemma download_each_outcome:
  assumes "\<forall>u \<in> set urls. downloadable e w u"
  shows "\<exists>st' w' rs. download_each e urls (st, w) = (Inr st', w') \<and>
           length rs = length urls \<and> (\<forall>n. Some n \<in> set rs \<longrightarrow> 0 \<le> n) \<and>
           st' = st\<lparr>success := success st @ recorded_success e urls rs,
                    failed := failed st @ recorded_failed urls rs,
                    total_bytes := total_bytes st + counted_bytes rs\<rparr>"
  using assms
proof (induction urls arbitrary: st w)
  case Nil
  show ?case
    by (rule exI [of _ st], rule exI [of _ w], rule exI [of _ "[]"])
       (simp add: recorded_success_def recorded_failed_def counted_bytes_def)
next
  case (Cons u urls)
  obtain r1 w1 where one: "download_file e u None (st, w) = (r1, w1)"
    by (cases "download_file e u None (st, w)")
  from Cons.prems have first: "downloadable e w u" by simp
  from download_file_step [OF first one]
  obtain st1 r where r1: "r1 = Inr st1"
    and st1: "st1 = st\<lparr>success := success st @ recorded_success e [u] [r],
                        failed := failed st @ recorded_failed [u] [r],
                        total_bytes := total_bytes st + counted_bytes [r]\<rparr>"
    and pos: "\<forall>n. r = Some n \<longrightarrow> 0 \<le> n"
    by blast
  have dirs: "\<And>q. fs w1 q = Some Dir \<longleftrightarrow> fs w q = Some Dir"
    using download_file_outcome [OF one] by blast
  have "\<forall>u \<in> set urls. downloadable e w1 u"
    using Cons.prems downloadable_dirs [OF dirs] by simp
  from Cons.IH [OF this, of st1]
  obtain st' w' rs where rest: "download_each e urls (st1, w1) = (Inr st', w')"
    and len: "length rs = length urls" and poss: "\<forall>n. Some n \<in> set rs \<longrightarrow> 0 \<le> n"
    and st': "st' = st1\<lparr>success := success st1 @ recorded_success e urls rs,
                       failed := failed st1 @ recorded_failed urls rs,
                       total_bytes := total_bytes st1 + counted_bytes rs\<rparr>"
    by blast
  have "download_each e (u # urls) (st, w) = (Inr st', w')"
    using one r1 rest by simp
  moreover have "length (r # rs) = length (u # urls)"
    using len by simp
  moreover have "\<forall>n. Some n \<in> set (r # rs) \<longrightarrow> 0 \<le> n"
    using pos poss by auto
  moreover have "st' = st\<lparr>success := success st @ recorded_success e (u # urls) (r # rs),
                    failed := failed st @ recorded_failed (u # urls) (r # rs),
                    total_bytes := total_bytes st + counted_bytes (r # rs)\<rparr>"
    unfolding st' st1
    by (simp add: recorded_success_def recorded_failed_def counted_bytes_def)
  ultimately show ?case by blast
qed

lemma existing_file_transfer:
  assumes "existing_file e url p hs w = (Inr (Transfer s h), w1)"
  shows "s = (case lookup_file e w p of None \<Rightarrow> 0 | Some nd \<Rightarrow> size_of_node e p nd)"
    and "fs w1 = fs w"
    and "open_error e w p = None \<Longrightarrow> int (length (kept w1 p s)) = s"
proof -
  show size: "s = (case lookup_file e w p of None \<Rightarrow> 0 | Some nd \<Rightarrow> size_of_node e p nd)"
  proof (cases "lookup_file e w p")
    case None
    with assms show ?thesis by (simp add: existing_file_absent)
  next
    case (Some nd)
    with assms show ?thesis
      by (auto simp: existing_file_present split: outcome.splits sum.splits if_splits)
  qed
  show same: "fs w1 = fs w"
    using assms by (rule existing_file_outcome(1))
  show "int (length (kept w1 p s)) = s" if "open_error e w p = None"
  proof -
    note nm = open_error_None [OF that]
    show ?thesis
    proof (cases "fs w p")
      case None
      with size nm(5) [of w] show ?thesis by (simp add: kept_def)
    next
      case (Some nd)
      with nm(4) obtain b where "nd = File b" by (cases nd) auto
      with Some size nm(5) [of w] same show ?thesis
        by (simp add: kept_def size_of_node_def)
    qed
  qed
qed

text \<open>After the look at the disk: the transfer, the check of the digest, the lists.\<close>

lemma download_file_transfer:
  assumes "local_filename_of e url = Inr p"
    and "existing_file e url p user_agent w = (Inr (Transfer s h), w1)"
    and "transfer e url p s h w1 = (r2, w2)"
  shows "download_file e url m (st, w) =
     (case r2 of
        Inl x \<Rightarrow> if caught x then Inr (st\<lparr>failed := failed st @ [url]\<rparr>) else Inl x
      | Inr k \<Rightarrow>
          (case verify_file_integrity e w2 p m of
             Some x \<Rightarrow> if caught x then Inr (st\<lparr>failed := failed st @ [url]\<rparr>) else Inl x
           | None \<Rightarrow> Inr (st\<lparr>total_bytes := total_bytes st + k,
                              success := success st @ [p]\<rparr>)),
      w2)"
  using assms
  by (simp add: download_file_def try_block_def split: sum.splits option.splits)

lemma transfer_world:
  assumes "transfer e url p s h w1 = (r2, w2)" and "open_error e w1 p = None"
  shows "(w2 = w1\<lparr>trace := trace w1 @ [Sent (get_request url h)]\<rparr> \<and> (\<exists>x. r2 = Inl x \<and> caught x)) \<or>
         (\<exists>r n. net e (trace w1) (get_request url h) = Response r \<and>
                raise_for_status r = None \<and>
                int_of_header (content_length r) = Inr n \<and>
                w2 = w1\<lparr>fs := (fs w1)(p \<mapsto> File (on_disk e w1 url p s h r)),
                        trace := trace w1 @ [Sent (get_request url h),
                                             Opened p (if 0 < s then Append else Truncate)]\<rparr> \<and>
                (\<forall>x. r2 = Inl x \<longrightarrow> caught x) \<and>
                (\<forall>k. r2 = Inr k \<longrightarrow> \<not> broken r \<and> s + int (length (concat (chunks r))) = n + s \<and>
                       k = n + s \<and> k = int (length (on_disk e w1 url p s h r))))"
proof -
  consider (none) "net e (trace w1) (get_request url h) = NoResponse"
    | (status) r x where "net e (trace w1) (get_request url h) = Response r" "raise_for_status r = Some x"
    | (header) r x where "net e (trace w1) (get_request url h) = Response r" "raise_for_status r = None"
        "int_of_header (content_length r) = Inl x"
    | (streamed) r n where "net e (trace w1) (get_request url h) = Response r" "raise_for_status r = None"
        "int_of_header (content_length r) = Inr n"
    by (cases "net e (trace w1) (get_request url h)")
       (metis not_Some_eq sum.exhaust_sel outcome.distinct outcome.inject)+
  then show ?thesis
  proof cases
    case none
    from assms(1) have "w2 = w1\<lparr>trace := trace w1 @ [Sent (get_request url h)]\<rparr> \<and>
                        r2 = Inl ConnectionError"
      unfolding transfer_no_response [OF none] by simp
    then show ?thesis by simp
  next
    case status
    have "caught x"
      using status(2) by (auto simp: raise_for_status_def split: if_splits)
    moreover from assms(1) have "w2 = w1\<lparr>trace := trace w1 @ [Sent (get_request url h)]\<rparr> \<and>
                        r2 = Inl x"
      unfolding transfer_http_error [OF status] by simp
    ultimately show ?thesis by simp
  next
    case header
    have "caught x"
      using header(3) by (rule int_of_header_caught)
    moreover from assms(1) have "w2 = w1\<lparr>trace := trace w1 @ [Sent (get_request url h)]\<rparr> \<and>
                        r2 = Inl x"
      unfolding transfer_bad_header [OF header] by simp
    ultimately show ?thesis by simp
  next
    case streamed
    note eq = transfer_streamed [OF streamed assms(2), of s]
    have "w2 = w1\<lparr>fs := (fs w1)(p \<mapsto> File (on_disk e w1 url p s h r)),
                        trace := trace w1 @ [Sent (get_request url h),
                                             Opened p (if 0 < s then Append else Truncate)]\<rparr>"
      using assms(1) unfolding eq by simp
    moreover have "\<forall>x. r2 = Inl x \<longrightarrow> caught x"
      using assms(1) unfolding eq by (auto split: if_splits)
    moreover have "\<forall>k. r2 = Inr k \<longrightarrow> \<not> broken r \<and> s + int (length (concat (chunks r))) = n + s \<and>
                       k = n + s \<and> k = int (length (on_disk e w1 url p s h r))"
      using assms(1) unfolding eq by (auto split: if_splits)
    ultimately show ?thesis
      using streamed by blast
  qed
qed

lemma raise_for_status_Some:
  "400 \<le> status_code r \<Longrightarrow> status_code r < 600 \<Longrightarrow>
   raise_for_status r = Some (HTTPError (status_code r))"
  by (simp add: raise_for_status_def)

text \<open>The file names of the URLs in the concrete runs.\<close>

lemma name_f: "local_filename_of (env_of n) ''https://h/f'' = Inr ''f''"
  by code_simp

lemma name_a: "local_filename_of (env_of n) ''https://h/a/f'' = Inr ''f''"
  by code_simp

lemma name_b: "local_filename_of (env_of n) ''https://h/b/f'' = Inr ''f''"
  by code_simp








subsection \<open>The progress line\<close>

text \<open>
  Claim C9. For every pair of byte counts, \<^verbatim>\<open>show_progress\<close> returns normally: no
  division error is raised. With a total of 0 the percentage is 0, otherwise it is
  downloaded / total times 100 (an exact fraction in this model).
\<close>

theorem show_progress_no_division_error:
  "show_progress downloaded total_size =
     Inr (if total_size = 0 then 0 else of_int downloaded / of_int total_size * 100)"
  by (simp add: show_progress_def truediv_def)

theorem show_progress_no_division_error_witness:
  "show_progress 8192 0 = Inr 0 \<and> show_progress 1 4 = Inr 25"
  using show_progress_no_division_error [of 8192 0] show_progress_no_division_error [of 1 4]
  by simp

subsection \<open>The batch\<close>

text \<open>
  Claim C1, amended. For every list of N targets each of which is \<open>downloadable\<close>
  (\<^verbatim>\<open>urlparse\<close> accepts its URL, and its local file name can be opened: it is not
  empty, not longer than the file system takes, and not the name of a directory such as
  \<^verbatim>\<open>.\<close> or \<^verbatim>\<open>..\<close>; or \<^verbatim>\<open>open\<close> refuses it with a \<^verbatim>\<open>ValueError\<close>), the
  batch runs to its end, whatever the network answers: each target adds exactly one
  entry, its file name to the success list or its URL to the failure list, so the sizes
  of the two lists sum to N; a failed target adds nothing to the byte counter and a
  successful one adds a size that is not negative. When every URL holds a slash, no
  string is in both lists.
\<close>

theorem download_files_partition:
  assumes "\<forall>u \<in> set urls. downloadable e w u"
  shows "\<exists>st' w' rs. download_files e (new_downloader urls, w) = (Inr st', w') \<and>
           length rs = length urls \<and>
           success st' = recorded_success e urls rs \<and>
           failed st' = recorded_failed urls rs \<and>
           total_bytes st' = counted_bytes rs \<and>
           (\<forall>n. Some n \<in> set rs \<longrightarrow> 0 \<le> n) \<and>
           length (success st') + length (failed st') = length urls \<and>
           ((\<forall>u \<in> set urls. CHR ''/'' \<in> set u) \<longrightarrow> set (success st') \<inter> set (failed st') = {})"
proof -
  from download_each_outcome [OF assms, of "new_downloader urls"]
  obtain st' w' rs where run: "download_each e urls (new_downloader urls, w) = (Inr st', w')"
    and len: "length rs = length urls" and pos: "\<forall>n. Some n \<in> set rs \<longrightarrow> 0 \<le> n"
    and st': "st' = (new_downloader urls)\<lparr>
                 success := success (new_downloader urls) @ recorded_success e urls rs,
                 failed := failed (new_downloader urls) @ recorded_failed urls rs,
                 total_bytes := total_bytes (new_downloader urls) + counted_bytes rs\<rparr>"
    by blast
  have s: "success st' = recorded_success e urls rs" and f: "failed st' = recorded_failed urls rs"
    and t: "total_bytes st' = counted_bytes rs"
    by (simp_all add: st' new_downloader_def)
  have "set (recorded_success e urls rs) \<inter> set (recorded_failed urls rs) = {}"
    if "\<forall>u \<in> set urls. CHR ''/'' \<in> set u"
    using that recorded_success_no_slash recorded_failed_subset by blast
  moreover have "download_files e (new_downloader urls, w) = (Inr st', w')"
    using run by (simp add: download_files_def new_downloader_def)
  ultimately show ?thesis
    using len pos s f t recorded_lengths [OF len] by auto
qed

theorem download_files_partition_witness:
  "fst (download_files env_two (new_downloader [''https://h/a/f'', ''https://h/x/g''], empty_dir)) =
     Inr \<lparr>file_urls = [''https://h/a/f'', ''https://h/x/g''], total_bytes = 3,
          success = [''f''], failed = [''https://h/x/g'']\<rparr> \<and>
   (\<exists>st' w' rs.
      download_files env_two (new_downloader [''https://h/a/f'', ''https://h/x/g''], empty_dir) =
        (Inr st', w') \<and>
      length rs = length [''https://h/a/f'', ''https://h/x/g''] \<and>
      success st' = recorded_success env_two [''https://h/a/f'', ''https://h/x/g''] rs \<and>
      failed st' = recorded_failed [''https://h/a/f'', ''https://h/x/g''] rs \<and>
      total_bytes st' = counted_bytes rs \<and>
      (\<forall>n. Some n \<in> set rs \<longrightarrow> 0 \<le> n) \<and>
      length (success st') + length (failed st') = length [''https://h/a/f'', ''https://h/x/g''] \<and>
      set (success st') \<inter> set (failed st') = {})"
proof -
  have "downloadable env_two empty_dir ''https://h/a/f''"
    and "downloadable env_two empty_dir ''https://h/x/g''"
    by code_simp+
  then have ok: "\<forall>u \<in> set [''https://h/a/f'', ''https://h/x/g'']. downloadable env_two empty_dir u"
    by simp
  have slashes: "\<forall>u \<in> set [''https://h/a/f'', ''https://h/x/g'']. CHR ''/'' \<in> set u"
    by simp
  have run: "fst (download_files env_two
                    (new_downloader [''https://h/a/f'', ''https://h/x/g''], empty_dir)) =
     Inr \<lparr>file_urls = [''https://h/a/f'', ''https://h/x/g''], total_bytes = 3,
          success = [''f''], failed = [''https://h/x/g'']\<rparr>"
    by code_simp
  from download_files_partition [OF ok] slashes run
  show ?thesis by blast
qed

text \<open>
  Claim C1 as stated fails: line 150 catches \<^verbatim>\<open>RequestException\<close> and
  \<^verbatim>\<open>ValueError\<close> only, and line 103 is outside the \<^verbatim>\<open>try\<close>. A URL that ends in a
  slash has the empty file name, which cannot be opened: the \<^verbatim>\<open>FileNotFoundError\<close>
  stops the batch at the first target and the second one is never requested. A URL with
  an unclosed square bracket makes \<^verbatim>\<open>urlparse\<close> raise at line 103. A URL whose last
  segment is \<^verbatim>\<open>.\<close> names the working directory, and \<^verbatim>\<open>open\<close> raises
  \<^verbatim>\<open>IsADirectoryError\<close>.
\<close>

theorem download_files_aborts_on_unusable_name:
  "fst (download_files env_ok (new_downloader [''https://h/d/'', ''https://h/f''], empty_dir)) =
     Inl (OSError ENOENT) \<and>
   trace (snd (download_files env_ok (new_downloader [''https://h/d/'', ''https://h/f''], empty_dir))) =
     [Sent (get_request ''https://h/d/'' user_agent)] \<and>
   fst (download_files env_ok (new_downloader [''https://[h/f''], empty_dir)) =
     Inl (ValueError InvalidURL) \<and>
   fst (download_files env_ok (new_downloader [''https://h/a/.''], empty_dir)) =
     Inl (OSError EISDIR)"
  by code_simp

subsection \<open>A file that is already complete\<close>

text \<open>
  Claim C3. When the local file exists, the \<^verbatim>\<open>HEAD\<close> request reports its size as
  the remote total and the check of the digest passes, the call sends the \<^verbatim>\<open>HEAD\<close>
  request and nothing else: no \<^verbatim>\<open>GET\<close>, no file opened, the working directory as it
  was; the file name is appended to the success list and the size of the file is added
  to the byte counter.
\<close>

theorem complete_file_is_not_fetched:
  assumes "local_filename_of e url = Inr p"
    and "lookup_file e w p = Some (File b)"
    and "net e (trace w) (head_request url user_agent) = Response r"
    and "int_of_header (content_length r) = Inr (int (length b))"
    and "verify_file_integrity e w p expected_md5 = None"
  shows "download_file e url expected_md5 (st, w) =
           (Inr (st\<lparr>success := success st @ [p],
                    total_bytes := total_bytes st + int (length b)\<rparr>),
            w\<lparr>trace := trace w @ [Sent (head_request url user_agent)]\<rparr>)"
proof -
  have found: "existing_file e url p user_agent w =
      (Inr (Complete (int (length b))), w\<lparr>trace := trace w @ [Sent (head_request url user_agent)]\<rparr>)"
    using assms(3,4) by (simp add: existing_file_present [OF assms(2)] size_of_node_def)
  have "verify_file_integrity e (w\<lparr>trace := trace w @ [Sent (head_request url user_agent)]\<rparr>)
          p expected_md5 = None"
    using assms(5)
      verify_fs [of "w\<lparr>trace := trace w @ [Sent (head_request url user_agent)]\<rparr>" w]
    by simp
  with found assms(1) show ?thesis
    by (simp add: download_file_def try_block_def)
qed

theorem complete_file_is_not_fetched_witness:
  "download_file env_two ''https://h/b/f'' None (new_downloader [''https://h/b/f''], dir_abc) =
     (Inr \<lparr>file_urls = [''https://h/b/f''], total_bytes = 3, success = [''f''], failed = []\<rparr>,
      \<lparr>fs = [''f'' \<mapsto> File ''abc''], trace = [Sent (head_request ''https://h/b/f'' user_agent)]\<rparr>)"
proof -
  have a: "local_filename_of env_two ''https://h/b/f'' = Inr ''f''"
    by (simp add: env_two_def name_b)
  have b: "lookup_file env_two dir_abc ''f'' = Some (File ''abc'')"
    by code_simp
  have c: "net env_two (trace dir_abc) (head_request ''https://h/b/f'' user_agent) =
             Response \<lparr>status_code = 200, content_length = Length 3, chunks = [], broken = False\<rparr>"
    by (simp add: env_two_def env_of_def net_two_def head_request_def)
  have d: "int_of_header (content_length \<lparr>status_code = 200, content_length = Length 3,
             chunks = [], broken = False\<rparr>) = Inr (int (length ''abc''))"
    by (simp add: int_of_header_def)
  have e: "verify_file_integrity env_two dir_abc ''f'' None = None"
    by (simp add: verify_file_integrity_def)
  from complete_file_is_not_fetched [OF a b c d e, of "new_downloader [''https://h/b/f'']"]
  show ?thesis
    by (simp add: new_downloader_def dir_abc_def)
qed

subsection \<open>An error status\<close>

text \<open>
  Claim C6, amended. Whenever the body request is answered with a status from 400 to 599,
  the attempt ends there: the target's URL is appended to the failure list, the request is
  the last thing that happened, no file is opened and no byte is written.
\<close>

theorem error_status_fails_before_body:
  assumes "local_filename_of e url = Inr p"
    and "existing_file e url p user_agent w = (Inr (Transfer s h), w1)"
    and "net e (trace w1) (get_request url h) = Response r"
    and "400 \<le> status_code r" and "status_code r < 600"
  shows "download_file e url expected_md5 (st, w) =
           (Inr (st\<lparr>failed := failed st @ [url]\<rparr>),
            w1\<lparr>trace := trace w1 @ [Sent (get_request url h)]\<rparr>) \<and>
         fs w1 = fs w"
proof -
  have "transfer e url p s h w1 =
          (Inl (HTTPError (status_code r)), w1\<lparr>trace := trace w1 @ [Sent (get_request url h)]\<rparr>)"
    using assms(3) raise_for_status_Some [OF assms(4,5)] by (rule transfer_http_error)
  with assms(1,2) have "download_file e url expected_md5 (st, w) =
           (Inr (st\<lparr>failed := failed st @ [url]\<rparr>),
            w1\<lparr>trace := trace w1 @ [Sent (get_request url h)]\<rparr>)"
    by (simp add: download_file_def try_block_def)
  then show ?thesis
    using existing_file_outcome(1) [OF assms(2)] by simp
qed

theorem error_status_fails_before_body_witness:
  "download_file env_404 ''https://h/f'' None (new_downloader [''https://h/f''], empty_dir) =
     (Inr \<lparr>file_urls = [''https://h/f''], total_bytes = 0, success = [],
           failed = [''https://h/f'']\<rparr>,
      \<lparr>fs = Map.empty, trace = [Sent (get_request ''https://h/f'' user_agent)]\<rparr>)"
proof -
  have n: "local_filename_of env_404 ''https://h/f'' = Inr ''f''"
    by (simp add: env_404_def name_f)
  have "lookup_file env_404 empty_dir ''f'' = None"
    by code_simp
  then have a: "existing_file env_404 ''https://h/f'' ''f'' user_agent empty_dir =
            (Inr (Transfer 0 user_agent), empty_dir)"
    by (rule existing_file_absent)
  have b: "net env_404 (trace empty_dir) (get_request ''https://h/f'' user_agent) = Response not_found"
    by (simp add: env_404_def env_of_def)
  have c: "400 \<le> status_code not_found" and d: "status_code not_found < 600"
    by (simp_all add: not_found_def)
  from error_status_fails_before_body [OF n a b c d, of None "new_downloader [''https://h/f'']"]
  show ?thesis
    by (simp add: new_downloader_def empty_dir_def)
qed

text \<open>
  Claim C6 as stated fails: 304 is not a 2xx status, yet \<^verbatim>\<open>raise_for_status\<close> lets it
  pass; the file is opened, left empty, and the target is recorded as a success.
\<close>

theorem status_304_is_recorded_as_success:
  "\<not> (200 \<le> status_code not_modified \<and> status_code not_modified < 300) \<and>
   fst (download_file env_304 ''https://h/f'' None (new_downloader [''https://h/f''], empty_dir)) =
     Inr \<lparr>file_urls = [''https://h/f''], total_bytes = 0, success = [''f''], failed = []\<rparr> \<and>
   trace (snd (download_file env_304 ''https://h/f'' None (new_downloader [''https://h/f''], empty_dir))) =
     [Sent (get_request ''https://h/f'' user_agent), Opened ''f'' Truncate] \<and>
   lookup_file env_304 (snd (download_file env_304 ''https://h/f'' None (new_downloader [''https://h/f''], empty_dir))) ''f'' = Some (File [])"
  by code_simp

subsection \<open>Resuming a partial file\<close>

text \<open>
  Claim C2, amended. When the local file exists with S bytes and the \<^verbatim>\<open>HEAD\<close> request
  reports a different total, the next request is the body \<^verbatim>\<open>GET\<close> with the header
  \<^verbatim>\<open>Range: bytes=S-\<close>; if the file is opened at all, it is opened for append when
  S is positive and for truncate when S is 0, so that in both cases the bytes that were on
  disk stay in front of what is written; and on success the size on disk is S plus the
  \<^verbatim>\<open>Content-Length\<close> of the answer to the \<^verbatim>\<open>GET\<close>.
\<close>

theorem resume_sends_range:
  assumes "local_filename_of e url = Inr p"
    and "lookup_file e w p = Some (File b)"
    and "net e (trace w) (head_request url user_agent) = Response rh"
    and "int_of_header (content_length rh) = Inr t"
    and "int (length b) \<noteq> t"
    and "download_file e url expected_md5 (st, w) = (res, w')"
  shows "(\<exists>evs. trace w' = trace w @
                  [Sent (head_request url user_agent),
                   Sent (get_request url
                          (user_agent @ [(''Range'', ''bytes='' @ str_int (int (length b)) @ ''-'')]))] @ evs \<and>
               (evs = [] \<or> evs = [Opened p (if b \<noteq> [] then Append else Truncate)])) \<and>
         (\<exists>c. lookup_file e w' p = Some (File (b @ c))) \<and>
         (\<forall>rg n st'.
            net e (trace w @ [Sent (head_request url user_agent)])
              (get_request url
                (user_agent @ [(''Range'', ''bytes='' @ str_int (int (length b)) @ ''-'')])) = Response rg \<and>
            int_of_header (content_length rg) = Inr n \<and>
            res = Inr st' \<and> success st' = success st @ [p] \<longrightarrow>
            getsize e w' p = Inr (int (length b) + n))"
proof -
  let ?s = "int (length b)"
  let ?h = "user_agent @ [(''Range'', ''bytes='' @ str_int ?s @ ''-'')]"
  let ?w1 = "w\<lparr>trace := trace w @ [Sent (head_request url user_agent)]\<rparr>"
  have opens: "open_error e w p = None" and held: "fs w p = Some (File b)"
    using lookup_file_File [OF assms(2)] by simp_all
  note nm = open_error_None [OF opens]
  have opens1: "open_error e ?w1 p = None"
    using opens open_error_fs [of ?w1 w e p] by simp
  have found: "existing_file e url p user_agent w = (Inr (Transfer ?s ?h), ?w1)"
    using assms(3,4,5) by (simp add: existing_file_present [OF assms(2)] size_of_node_def)
  have keep: "kept ?w1 p ?s = b"
    using held by (simp add: kept_def)
  obtain r2 w2 where moved: "transfer e url p ?s ?h ?w1 = (r2, w2)"
    by (cases "transfer e url p ?s ?h ?w1")
  have w': "w' = w2"
    and res: "res = (case r2 of
        Inl x \<Rightarrow> if caught x then Inr (st\<lparr>failed := failed st @ [url]\<rparr>) else Inl x
      | Inr k \<Rightarrow>
          (case verify_file_integrity e w2 p expected_md5 of
             Some x \<Rightarrow> if caught x then Inr (st\<lparr>failed := failed st @ [url]\<rparr>) else Inl x
           | None \<Rightarrow> Inr (st\<lparr>total_bytes := total_bytes st + k,
                              success := success st @ [p]\<rparr>)))"
    using assms(6) unfolding download_file_transfer [OF assms(1) found moved] by simp_all
  from transfer_world [OF moved opens1]
  consider (stopped) "w2 = ?w1\<lparr>trace := trace ?w1 @ [Sent (get_request url ?h)]\<rparr>"
      and "\<exists>x. r2 = Inl x \<and> caught x"
    | (streamed) r n where "net e (trace ?w1) (get_request url ?h) = Response r"
      and "int_of_header (content_length r) = Inr n"
      and "w2 = ?w1\<lparr>fs := (fs ?w1)(p \<mapsto> File (on_disk e ?w1 url p ?s ?h r)),
                     trace := trace ?w1 @ [Sent (get_request url ?h),
                                          Opened p (if 0 < ?s then Append else Truncate)]\<rparr>"
      and "\<forall>x. r2 = Inl x \<longrightarrow> caught x"
      and "\<forall>k. r2 = Inr k \<longrightarrow> k = n + ?s \<and> k = int (length (on_disk e ?w1 url p ?s ?h r))"
    by blast
  then show ?thesis
  proof cases
    case stopped
    from stopped(2) obtain x where "r2 = Inl x" and "caught x" by blast
    with res have failed: "res = Inr (st\<lparr>failed := failed st @ [url]\<rparr>)" by simp
    have "trace w' = trace w @ [Sent (head_request url user_agent), Sent (get_request url ?h)] @ []"
      by (simp add: w' stopped(1))
    moreover have "lookup_file e w' p = Some (File (b @ []))"
      unfolding nm(5) [of w'] using held by (simp add: w' stopped(1))
    ultimately show ?thesis
      using failed by (intro conjI exI) auto
  next
    case streamed
    have "\<exists>c. on_disk e ?w1 url p ?s ?h r = b @ c"
      unfolding on_disk_def keep by (rule exI) (rule refl)
    then obtain c where disk: "on_disk e ?w1 url p ?s ?h r = b @ c"
      by (elim exE)
    have tr: "trace w' = trace w @ [Sent (head_request url user_agent), Sent (get_request url ?h)] @
                [Opened p (if b \<noteq> [] then Append else Truncate)]"
      by (simp add: w' streamed(3))
    have "fs w' p = Some (File (on_disk e ?w1 url p ?s ?h r))"
      by (simp add: w' streamed(3))
    then have content: "lookup_file e w' p = Some (File (b @ c))"
      unfolding nm(5) [of w'] disk .
    have size: "getsize e w' p = Inr (int (length (b @ c)))"
      using content by (simp add: getsize_def del: length_append)
    have "getsize e w' p = Inr (?s + n')"
      if got: "net e (trace w @ [Sent (head_request url user_agent)]) (get_request url ?h) = Response rg"
        and parsed: "int_of_header (content_length rg) = Inr n'"
        and ok: "res = Inr st'" and listed: "success st' = success st @ [p]"
      for rg n' st'
    proof -
      from got parsed streamed(1,2) have same: "n' = n" by simp
      have "\<exists>k. r2 = Inr k"
        using ok listed streamed(4) res by (cases r2) (auto split: if_splits)
      then obtain k where "r2 = Inr k" ..
      with streamed(5) have "n + ?s = int (length (on_disk e ?w1 url p ?s ?h r))"
        by (simp only:)
      then have "int (length (b @ c)) = ?s + n"
        unfolding disk by simp
      then show ?thesis
        unfolding size same by (simp only:)
    qed
    with tr content show ?thesis
      by (intro conjI exI) blast+
  qed
qed

theorem resume_sends_range_witness:
  "trace (snd (download_file env_resume ''https://h/f'' None (new_downloader [''https://h/f''], dir_abc))) =
     [Sent (head_request ''https://h/f'' user_agent),
      Sent (get_request ''https://h/f'' (user_agent @ [(''Range'', ''bytes=3-'')])),
      Opened ''f'' Append] \<and>
   lookup_file env_resume
     (snd (download_file env_resume ''https://h/f'' None (new_downloader [''https://h/f''], dir_abc))) ''f'' =
     Some (File ''abcde'') \<and>
   (\<exists>c. lookup_file env_resume
          (snd (download_file env_resume ''https://h/f'' None
                 (new_downloader [''https://h/f''], dir_abc))) ''f'' =
          Some (File (''abc'' @ c)))"
proof -
  let ?run = "download_file env_resume ''https://h/f'' None (new_downloader [''https://h/f''], dir_abc)"
  have n: "local_filename_of env_resume ''https://h/f'' = Inr ''f''"
    by (simp add: env_resume_def name_f)
  have a: "lookup_file env_resume dir_abc ''f'' = Some (File ''abc'')"
    by code_simp
  have b: "net env_resume (trace dir_abc) (head_request ''https://h/f'' user_agent) =
             Response \<lparr>status_code = 200, content_length = Length 5, chunks = [], broken = False\<rparr>"
    by (simp add: env_resume_def env_of_def head_request_def)
  have c: "int_of_header (content_length \<lparr>status_code = 200, content_length = Length 5,
             chunks = [], broken = False\<rparr>) = Inr 5"
    by (simp add: int_of_header_def)
  have d: "int (length ''abc'') \<noteq> 5"
    by simp
  have e: "?run = (fst ?run, snd ?run)"
    by simp
  have "trace (snd ?run) = [Sent (head_request ''https://h/f'' user_agent),
      Sent (get_request ''https://h/f'' (user_agent @ [(''Range'', ''bytes=3-'')])),
      Opened ''f'' Append]"
    and "lookup_file env_resume (snd ?run) ''f'' = Some (File ''abcde'')"
    by code_simp+
  with resume_sends_range [OF n a b c d e] show ?thesis
    by blast
qed

text \<open>
  Claim C2 as stated fails twice. Three bytes are on disk and the server reports a total
  of five; it ignores the \<^verbatim>\<open>Range\<close> header and sends all five bytes with status 200:
  the target is a success and the file has eight bytes, not five. And a local file
  of size 0 is opened for truncate, not for append.
\<close>

theorem resume_ignored_range_counterexample:
  "lookup_file env_full dir_abc ''f'' = Some (File ''abc'') \<and>
   fst (download_file env_full ''https://h/f'' None (new_downloader [''https://h/f''], dir_abc)) =
     Inr \<lparr>file_urls = [''https://h/f''], total_bytes = 8, success = [''f''], failed = []\<rparr> \<and>
   getsize env_full
     (snd (download_file env_full ''https://h/f'' None (new_downloader [''https://h/f''], dir_abc))) ''f'' =
     Inr 8 \<and>
   trace (snd (download_file env_full ''https://h/f'' None (new_downloader [''https://h/f''], dir_touched))) =
     [Sent (head_request ''https://h/f'' user_agent),
      Sent (get_request ''https://h/f'' (user_agent @ [(''Range'', ''bytes=0-'')])),
      Opened ''f'' Truncate]"
  by code_simp

subsection \<open>The two size checks\<close>

text \<open>
  Claim C4. For a body \<^verbatim>\<open>GET\<close> that is answered, passes the status check, carries
  a readable \<^verbatim>\<open>Content-Length\<close> n and streams into a file that can be opened: the
  transfer starts from s, the number of bytes on disk before (0 without a file); the
  expected total is s + n. When the counter at the end of the stream differs from
  s + n, the size error of line 139 reports the counter next to s + n. When the counter
  agrees and the size k that is read from disk after the handle is closed differs from
  s + n, the size error of line 143 reports k next to s + n. And whenever the counter or
  the size on disk afterwards differs from s + n, the target's URL is appended to the
  failure list.
\<close>

theorem size_checks:
  assumes "local_filename_of e url = Inr p"
    and "existing_file e url p user_agent w = (Inr (Transfer s h), w1)"
    and "net e (trace w1) (get_request url h) = Response r"
    and "raise_for_status r = None"
    and "int_of_header (content_length r) = Inr n"
    and "open_error e w p = None"
    and "download_file e url expected_md5 (st, w) = (res, w')"
  shows "s = (case lookup_file e w p of None \<Rightarrow> 0 | Some nd \<Rightarrow> size_of_node e p nd) \<and>
         (\<not> broken r \<and> s + int (length (concat (chunks r))) \<noteq> s + n \<longrightarrow>
            fst (transfer e url p s h w1) =
              Inl (ValueError (DownloadedSize (s + int (length (concat (chunks r)))) (s + n)))) \<and>
         (\<forall>k. \<not> broken r \<and> s + int (length (concat (chunks r))) = s + n \<and>
              getsize e w' p = Inr k \<and> k \<noteq> s + n \<longrightarrow>
            fst (transfer e url p s h w1) = Inl (ValueError (FinalSize k (s + n)))) \<and>
         (s + int (length (concat (chunks r))) \<noteq> s + n \<or> getsize e w' p \<noteq> Inr (s + n) \<longrightarrow>
            res = Inr (st\<lparr>failed := failed st @ [url]\<rparr>))"
proof -
  let ?d = "s + int (length (concat (chunks r)))"
  let ?disk = "on_disk e w1 url p s h r"
  let ?w2 = "w1\<lparr>fs := (fs w1)(p \<mapsto> File ?disk),
                 trace := trace w1 @ [Sent (get_request url h),
                                      Opened p (if 0 < s then Append else Truncate)]\<rparr>"
  note probe = existing_file_transfer [OF assms(2)]
  have opens: "open_error e w1 p = None"
    using assms(6) open_error_fs [OF probe(2), of e p] by simp
  have moved: "transfer e url p s h w1 =
     (if broken r then Inl ConnectionError
      else if ?d \<noteq> n + s then Inl (ValueError (DownloadedSize ?d (n + s)))
      else if int (length ?disk) \<noteq> n + s
      then Inl (ValueError (FinalSize (int (length ?disk)) (n + s)))
      else Inr (int (length ?disk)), ?w2)"
    by (rule transfer_streamed [OF assms(3,4,5) opens])
  have size: "getsize e ?w2 p = Inr (int (length ?disk))"
    using open_error_None(5) [OF opens, of ?w2] by (simp add: getsize_def)
  have world: "w' = ?w2"
    using assms(7) unfolding download_file_transfer [OF assms(1,2) moved] by simp
  have result: "res = Inr (st\<lparr>failed := failed st @ [url]\<rparr>)"
    if "broken r \<or> ?d \<noteq> n + s \<or> int (length ?disk) \<noteq> n + s"
    using assms(7) that unfolding download_file_transfer [OF assms(1,2) moved]
    by (auto split: if_splits)
  have first: "\<not> broken r \<and> ?d \<noteq> s + n \<longrightarrow>
      fst (transfer e url p s h w1) = Inl (ValueError (DownloadedSize ?d (s + n)))"
    unfolding moved by (simp add: add.commute)
  have second: "\<forall>k. \<not> broken r \<and> ?d = s + n \<and> getsize e w' p = Inr k \<and> k \<noteq> s + n \<longrightarrow>
      fst (transfer e url p s h w1) = Inl (ValueError (FinalSize k (s + n)))"
    unfolding moved world size by (auto simp: add.commute)
  have third: "?d \<noteq> s + n \<or> getsize e w' p \<noteq> Inr (s + n) \<longrightarrow>
      res = Inr (st\<lparr>failed := failed st @ [url]\<rparr>)"
  proof
    assume "?d \<noteq> s + n \<or> getsize e w' p \<noteq> Inr (s + n)"
    then have "?d \<noteq> n + s \<or> int (length ?disk) \<noteq> n + s"
      unfolding world size by (auto simp: add.commute)
    then show "res = Inr (st\<lparr>failed := failed st @ [url]\<rparr>)"
      using result by blast
  qed
  from probe(1) first second third show ?thesis by (intro conjI)
qed

theorem size_checks_witness:
  "fst (transfer env_short ''https://h/f'' ''f'' 0 user_agent empty_dir) =
     Inl (ValueError (DownloadedSize 2 5)) \<and>
   fst (download_file env_short ''https://h/f'' None (new_downloader [''https://h/f''], empty_dir)) =
     Inr \<lparr>file_urls = [''https://h/f''], total_bytes = 0, success = [], failed = [''https://h/f'']\<rparr> \<and>
   getsize env_lossy
     (snd (download_file env_lossy ''https://h/f'' None (new_downloader [''https://h/f''], empty_dir)))
     ''f'' = Inr 3 \<and>
   fst (transfer env_lossy ''https://h/f'' ''f'' 0 user_agent empty_dir) =
     Inl (ValueError (FinalSize 3 5)) \<and>
   fst (download_file env_lossy ''https://h/f'' None (new_downloader [''https://h/f''], empty_dir)) =
     Inr \<lparr>file_urls = [''https://h/f''], total_bytes = 0, success = [], failed = [''https://h/f'']\<rparr>"
proof -
  let ?st = "new_downloader [''https://h/f'']"
  let ?run = "download_file env_lossy ''https://h/f'' None (?st, empty_dir)"
  have n: "local_filename_of env_lossy ''https://h/f'' = Inr ''f''"
    by code_simp
  have "lookup_file env_lossy empty_dir ''f'' = None"
    by code_simp
  then have a: "existing_file env_lossy ''https://h/f'' ''f'' user_agent empty_dir =
             (Inr (Transfer 0 user_agent), empty_dir)"
    by (rule existing_file_absent)
  have b: "net env_lossy (trace empty_dir) (get_request ''https://h/f'' user_agent) = Response five_bytes"
    by (simp add: env_lossy_def env_of_def)
  have c: "raise_for_status five_bytes = None"
    by (simp add: raise_for_status_def five_bytes_def)
  have d: "int_of_header (content_length five_bytes) = Inr 5"
    by (simp add: int_of_header_def five_bytes_def)
  have e: "open_error env_lossy empty_dir ''f'' = None"
    by code_simp
  have f: "?run = (fst ?run, snd ?run)"
    by simp
  have disk: "getsize env_lossy (snd ?run) ''f'' = Inr 3"
    by code_simp
  have counted: "(0::int) + int (length (concat (chunks five_bytes))) = 0 + 5"
    by (simp add: five_bytes_def)
  have short: "fst (transfer env_short ''https://h/f'' ''f'' 0 user_agent empty_dir) =
     Inl (ValueError (DownloadedSize 2 5))"
    and short_run: "fst (download_file env_short ''https://h/f'' None (?st, empty_dir)) =
     Inr \<lparr>file_urls = [''https://h/f''], total_bytes = 0, success = [], failed = [''https://h/f'']\<rparr>"
    by code_simp+
  note facts = size_checks [OF n a b c d e f]
  have "fst (transfer env_lossy ''https://h/f'' ''f'' 0 user_agent empty_dir) =
          Inl (ValueError (FinalSize 3 (0 + 5)))"
    using facts disk counted by (simp add: five_bytes_def)
  moreover have "fst ?run = Inr (?st\<lparr>failed := failed ?st @ [''https://h/f'']\<rparr>)"
    using facts disk by simp
  ultimately show ?thesis
    using disk short short_run by (simp add: new_downloader_def)
qed

subsection \<open>The checksum\<close>

text \<open>
  Claim C5. \<^verbatim>\<open>verify_file_integrity\<close> does nothing for an absent or empty expected
  checksum. For a non-empty one that differs from the digest of the file it raises a
  \<^verbatim>\<open>ValueError\<close> that carries the expected and the actual digest. And whenever
  \<^verbatim>\<open>download_file\<close> is given a checksum and leaves a file on disk whose digest
  differs from it, no exception leaves the call, the URL is appended to the failure
  list, and the byte counter and the success list stay as they were.
\<close>

theorem checksum_mismatch_fails_target:
  "verify_file_integrity e w p None = None \<and>
   verify_file_integrity e w p (Some []) = None \<and>
   (\<forall>expected b.
      expected \<noteq> [] \<and> lookup_file e w p = Some (File b) \<and> md5 e b \<noteq> expected \<longrightarrow>
      verify_file_integrity e w p (Some expected) =
        Some (ValueError (Md5Mismatch p expected (md5 e b)))) \<and>
   (\<forall>expected b res w' q.
      expected \<noteq> [] \<and>
      download_file e url (Some expected) (st, w) = (res, w') \<and>
      local_filename_of e url = Inr q \<and>
      lookup_file e w' q = Some (File b) \<and> md5 e b \<noteq> expected \<longrightarrow>
      res = Inr (st\<lparr>failed := failed st @ [url]\<rparr>))"
proof -
  have raised: "verify_file_integrity e w0 q (Some expected) =
        Some (ValueError (Md5Mismatch q expected (md5 e b)))"
    if "expected \<noteq> []" and "lookup_file e w0 q = Some (File b)" and "md5 e b \<noteq> expected"
    for w0 q expected b
    using that lookup_file_File [OF that(2)]
    by (simp add: verify_file_integrity_def calculate_md5_def)
  have "res = Inr (st\<lparr>failed := failed st @ [url]\<rparr>)"
    if filled: "expected \<noteq> []"
      and run: "download_file e url (Some expected) (st, w) = (res, w')"
      and named: "local_filename_of e url = Inr q"
      and disk: "lookup_file e w' q = Some (File b)"
      and differ: "md5 e b \<noteq> expected"
    for expected b res w' q
  proof -
    have wrong: "verify_file_integrity e w' q (Some expected) \<noteq> None"
      using raised [OF filled disk differ] by simp
    note out = download_file_outcome [OF run]
    have dirs: "\<And>x. fs w' x = Some Dir \<longleftrightarrow> fs w x = Some Dir"
      using out by blast
    have "open_error e w' q = None"
      using lookup_file_File [OF disk] by simp
    then have "open_error e w q = None"
      using open_error_dirs [OF dirs, of e q] by simp
    with named have able: "downloadable e w url"
      by (simp add: downloadable_def)
    show ?thesis
    proof (cases res)
      case (Inl x)
      with out able show ?thesis by simp
    next
      case (Inr st')
      from out have "\<forall>st'. res = Inr st' \<longrightarrow>
            (\<exists>p. local_filename_of e url = Inr p \<and>
              (st' = st\<lparr>failed := failed st @ [url]\<rparr> \<or>
               (\<exists>n. (open_error e w p = None \<longrightarrow> 0 \<le> n) \<and>
                    st' = st\<lparr>success := success st @ [p], total_bytes := total_bytes st + n\<rparr>)
               \<and> verify_file_integrity e w' p (Some expected) = None \<and> lookup_file e w' p \<noteq> None))"
        by (rule conjunct1 [OF conjunct2])
      from this [rule_format, OF Inr] named wrong
      have "st' = st\<lparr>failed := failed st @ [url]\<rparr>"
        by auto
      with Inr show ?thesis by simp
    qed
  qed
  then have last: "\<forall>expected b res w' q.
      expected \<noteq> [] \<and>
      download_file e url (Some expected) (st, w) = (res, w') \<and>
      local_filename_of e url = Inr q \<and>
      lookup_file e w' q = Some (File b) \<and> md5 e b \<noteq> expected \<longrightarrow>
      res = Inr (st\<lparr>failed := failed st @ [url]\<rparr>)"
    by blast
  have third: "\<forall>expected b.
      expected \<noteq> [] \<and> lookup_file e w p = Some (File b) \<and> md5 e b \<noteq> expected \<longrightarrow>
      verify_file_integrity e w p (Some expected) =
        Some (ValueError (Md5Mismatch p expected (md5 e b)))"
    using raised by blast
  have first: "verify_file_integrity e w p None = None"
    and second: "verify_file_integrity e w p (Some []) = None"
    by (simp_all add: verify_file_integrity_def)
  from first second third last show ?thesis
    by (intro conjI)
qed

theorem checksum_mismatch_fails_target_witness:
  "getsize env_two (snd (download_file env_two ''https://h/a/f'' (Some ''xyz'')
                   (new_downloader [''https://h/a/f''], empty_dir))) ''f'' = Inr 3 \<and>
   verify_file_integrity env_two
      (snd (download_file env_two ''https://h/a/f'' (Some ''xyz'')
              (new_downloader [''https://h/a/f''], empty_dir))) ''f'' (Some ''xyz'') =
     Some (ValueError (Md5Mismatch ''f'' ''xyz'' ''abc'')) \<and>
   fst (download_file env_two ''https://h/a/f'' (Some ''xyz'')
          (new_downloader [''https://h/a/f''], empty_dir)) =
     Inr \<lparr>file_urls = [''https://h/a/f''], total_bytes = 0, success = [],
          failed = [''https://h/a/f'']\<rparr>"
proof -
  let ?st = "new_downloader [''https://h/a/f'']"
  let ?run = "download_file env_two ''https://h/a/f'' (Some ''xyz'') (?st, empty_dir)"
  have disk: "lookup_file env_two (snd ?run) ''f'' = Some (File ''abc'')"
    by code_simp
  have a: "''xyz'' \<noteq> []" by simp
  have b: "?run = (fst ?run, snd ?run)" by simp
  have c: "local_filename_of env_two ''https://h/a/f'' = Inr ''f''"
    by (simp add: env_two_def name_a)
  have d: "md5 env_two ''abc'' \<noteq> ''xyz''"
    by (simp add: env_two_def env_of_def)
  note inst = checksum_mismatch_fails_target [of env_two "snd ?run" "''f''" "''https://h/a/f''" ?st]
  from inst a disk d
  have "verify_file_integrity env_two (snd ?run) ''f'' (Some ''xyz'') =
          Some (ValueError (Md5Mismatch ''f'' ''xyz'' (md5 env_two ''abc'')))"
    by blast
  moreover from checksum_mismatch_fails_target [of env_two empty_dir "''f''" "''https://h/a/f''" ?st]
    a b c disk d
  have "fst ?run = Inr (?st\<lparr>failed := failed ?st @ [''https://h/a/f'']\<rparr>)"
    by blast
  ultimately show ?thesis
    using disk by (simp add: getsize_def env_two_def env_of_def new_downloader_def)
qed

subsection \<open>The credential check\<close>

text \<open>
  Claim C7. When the validation request is answered with status 200,
  \<^verbatim>\<open>check_or_get_cookie\<close> returns with that request as its only effect: nothing is
  asked on the console. When it is answered with any other status, or not at all, the
  call continues as \<^verbatim>\<open>get_new_cookie\<close>, which begins with the prompts for the user
  name and the password.
\<close>

theorem validation_decides_renewal:
  "(\<forall>r. net e (trace w) (get_request test_url user_agent) = Response r \<and> status_code r = 200 \<longrightarrow>
        check_or_get_cookie e w =
          (None, w\<lparr>trace := trace w @ [Sent (get_request test_url user_agent)]\<rparr>)) \<and>
   (net e (trace w) (get_request test_url user_agent) = NoResponse \<or>
    (\<exists>r. net e (trace w) (get_request test_url user_agent) = Response r \<and> status_code r \<noteq> 200) \<longrightarrow>
      check_or_get_cookie e w =
        get_new_cookie e (w\<lparr>trace := trace w @ [Sent (get_request test_url user_agent)]\<rparr>)) \<and>
   (\<exists>evs. trace (snd (get_new_cookie e w)) =
            trace w @ [Input ''Enter Earthdata username: '',
                       Getpass ''Enter Earthdata password: ''] @ evs)"
proof -
  have "\<exists>evs. trace (snd (get_new_cookie e w)) =
            trace w @ [Input ''Enter Earthdata username: '',
                       Getpass ''Enter Earthdata password: ''] @ evs"
    by (simp add: get_new_cookie_def send_def Let_def split: outcome.splits)
  then show ?thesis
    by (auto simp: check_or_get_cookie_def send_def is_request_exception_def)
qed

theorem validation_decides_renewal_witness:
  "check_or_get_cookie env_ok empty_dir =
     (None, empty_dir\<lparr>trace := trace empty_dir @ [Sent (get_request test_url user_agent)]\<rparr>) \<and>
   check_or_get_cookie env_404 empty_dir =
     get_new_cookie env_404
       (empty_dir\<lparr>trace := trace empty_dir @ [Sent (get_request test_url user_agent)]\<rparr>) \<and>
   check_or_get_cookie env_renew empty_dir =
     get_new_cookie env_renew
       (empty_dir\<lparr>trace := trace empty_dir @ [Sent (get_request test_url user_agent)]\<rparr>) \<and>
   fst (check_or_get_cookie env_renew empty_dir) = None"
proof -
  have "net env_renew (trace empty_dir) (get_request test_url user_agent) = NoResponse"
    by (simp add: env_renew_def env_of_def get_request_def test_url_def auth_url_def)
  moreover have "fst (check_or_get_cookie env_renew empty_dir) = None"
    by code_simp
  ultimately show ?thesis
    using validation_decides_renewal [of env_ok empty_dir]
      validation_decides_renewal [of env_404 empty_dir]
      validation_decides_renewal [of env_renew empty_dir]
    by (simp add: env_ok_def env_404_def env_of_def ok_empty_def not_found_def)
qed

subsection \<open>What each list records\<close>




subsection \<open>Two URLs, one file name\<close>

text \<open>
  Claim C10. Two different URLs with the same last path segment name the same local
  file. In this run the first is downloaded (three bytes); for the second only the
  \<^verbatim>\<open>HEAD\<close> request is sent, the file of the first is taken for its complete
  download, and it is recorded as a success with three more bytes counted, although no
  \<^verbatim>\<open>GET\<close> was ever sent for it.
\<close>

theorem same_name_is_taken_for_a_download:
  "''https://h/a/f'' \<noteq> ''https://h/b/f'' \<and>
   local_filename_of env_two ''https://h/a/f'' = local_filename_of env_two ''https://h/b/f'' \<and>
   fst (download_files env_two (new_downloader [''https://h/a/f'', ''https://h/b/f''], empty_dir)) =
     Inr \<lparr>file_urls = [''https://h/a/f'', ''https://h/b/f''], total_bytes = 6,
          success = [''f'', ''f''], failed = []\<rparr> \<and>
   trace (snd (download_files env_two
                 (new_downloader [''https://h/a/f'', ''https://h/b/f''], empty_dir))) =
     [Sent (get_request ''https://h/a/f'' user_agent), Opened ''f'' Truncate,
      Sent (head_request ''https://h/b/f'' user_agent)] \<and>
   lookup_file env_two (snd (download_files env_two
                 (new_downloader [''https://h/a/f'', ''https://h/b/f''], empty_dir))) ''f'' =
     Some (File ''abc'')"
  by code_simp

end
